theory Spec2Isabelle
  imports Complex_Main "HOL-Library.AList"
begin

section \<open>Numbers\<close>

text \<open>
  The simulator computes with Python floats. Its functions are modelled over an arbitrary
  arithmetic: a linearly ordered type of numbers with the constants 0.0, 1.0 and
  \<open>-float('inf')\<close> and with an addition, a multiplication and a division of which
  nothing is assumed. Python's doubles without NaN, with 0.0 and -0.0 identified and with
  their rounded operations, are one such arithmetic, so a statement proved for every
  arithmetic holds of the program as it runs; every branch of the code tests the numbers
  the arithmetic computed. Laws of the arithmetic that a statement needs are hypotheses of
  that statement.
\<close>

record 'f arith =
  fzero :: 'f
  fone :: 'f
  fneg_inf :: 'f
  fadd :: "'f \<Rightarrow> 'f \<Rightarrow> 'f"
  fmul :: "'f \<Rightarrow> 'f \<Rightarrow> 'f"
  fdiv :: "'f \<Rightarrow> 'f \<Rightarrow> 'f"

text \<open>\<open>acc = 0.0; for x in xs: acc += x\<close>: the sum in the order of the list.\<close>

definition fsum :: "'f arith \<Rightarrow> 'f list \<Rightarrow> 'f" where
  "fsum ar xs = foldl (fadd ar) (fzero ar) xs"

section \<open>Data model\<close>

text \<open>
  A dictionary that is only read by key is a map; a dictionary whose keys are enumerated
  (the signaling scheme and its rows) is an association list in insertion order, read with
  \<open>map_of\<close> and written with \<open>AList.update\<close>. A failed subscript raises
  \<open>KeyError\<close>; adding a non-number raises \<open>TypeError\<close>.
\<close>

datatype error = KeyError | TypeError

type_synonym ('s, 'f) belief = "'s \<rightharpoonup> 'f"

type_synonym ('s, 'm, 'f) scheme = "('s \<times> ('m \<times> 'f) list) list"

text \<open>The fields of \<open>BayesianGameSimulator\<close>, as \<open>__init__\<close> stores them.\<close>

record ('s, 'a, 'f) simulator =
  states :: "'s list"
  actions :: "'a list"
  prior :: "('s, 'f) belief"
  u_s :: "'a \<rightharpoonup> ('s \<rightharpoonup> 'f)"
  u_r :: "'a \<rightharpoonup> ('s \<rightharpoonup> 'f)"

text \<open>\<open>d.get(k, dflt)\<close> on a dictionary held as an association list.\<close>

definition get_default :: "('k \<times> 'v) list \<Rightarrow> 'k \<Rightarrow> 'v \<Rightarrow> 'v" where
  "get_default d k dflt = (case map_of d k of None \<Rightarrow> dflt | Some v \<Rightarrow> v)"

text \<open>
  \<open>table[action][state]\<close>. The action is what the best-response loop returned, so it
  may be Python's \<open>None\<close>; no utility table has an entry for it.
\<close>

fun table_lookup :: "('a \<rightharpoonup> ('s \<rightharpoonup> 'f)) \<Rightarrow> 'a option \<Rightarrow> 's \<Rightarrow> error + 'f" where
  "table_lookup t None w = Inl KeyError"
| "table_lookup t (Some a) w =
     (case t a of None \<Rightarrow> Inl KeyError
      | Some row \<Rightarrow> (case row w of None \<Rightarrow> Inl KeyError | Some v \<Rightarrow> Inr v))"

section \<open>Posterior belief\<close>

text \<open>The first loop of \<open>_calculate_posterior_belief\<close>: it accumulates P(signal).\<close>

fun prob_signal_loop ::
  "'f arith \<Rightarrow> ('s, 'a, 'f) simulator \<Rightarrow> 'm \<Rightarrow> ('s, 'm, 'f) scheme \<Rightarrow> 's list \<Rightarrow> 'f
     \<Rightarrow> error + 'f" where
  "prob_signal_loop ar sim signal scheme [] prob_signal = Inr prob_signal"
| "prob_signal_loop ar sim signal scheme (state # rest) prob_signal =
     (case map_of scheme state of None \<Rightarrow> Inl KeyError
      | Some row \<Rightarrow>
          (case prior sim state of None \<Rightarrow> Inl KeyError
           | Some p \<Rightarrow>
               prob_signal_loop ar sim signal scheme rest
                 (fadd ar prob_signal (fmul ar (get_default row signal (fzero ar)) p))))"

text \<open>The second loop: one entry of the posterior dictionary per state.\<close>

fun posterior_loop ::
  "'f arith \<Rightarrow> ('s, 'a, 'f) simulator \<Rightarrow> 'm \<Rightarrow> ('s, 'm, 'f) scheme \<Rightarrow> 'f \<Rightarrow> 's list
     \<Rightarrow> ('s, 'f) belief \<Rightarrow> error + ('s, 'f) belief" where
  "posterior_loop ar sim signal scheme prob_signal [] posterior_belief = Inr posterior_belief"
| "posterior_loop ar sim signal scheme prob_signal (state # rest) posterior_belief =
     (case map_of scheme state of None \<Rightarrow> Inl KeyError
      | Some row \<Rightarrow>
          (case prior sim state of None \<Rightarrow> Inl KeyError
           | Some prob_state \<Rightarrow>
               posterior_loop ar sim signal scheme prob_signal rest
                 (posterior_belief
                    (state \<mapsto> fdiv ar (fmul ar (get_default row signal (fzero ar)) prob_state)
                                prob_signal))))"

text \<open>The test \<open>prob_signal == 0\<close> is on the number the first loop computed.\<close>

definition calculate_posterior_belief ::
  "'f arith \<Rightarrow> ('s, 'a, 'f) simulator \<Rightarrow> 'm \<Rightarrow> ('s, 'm, 'f) scheme
     \<Rightarrow> error + (('s, 'f) belief \<times> 'f)" where
  "calculate_posterior_belief ar sim signal scheme =
     (case prob_signal_loop ar sim signal scheme (states sim) (fzero ar) of
        Inl e \<Rightarrow> Inl e
      | Inr prob_signal \<Rightarrow>
          if prob_signal = fzero ar then Inr (prior sim, fzero ar)
          else (case posterior_loop ar sim signal scheme prob_signal (states sim) Map.empty of
                  Inl e \<Rightarrow> Inl e
                | Inr posterior_belief \<Rightarrow> Inr (posterior_belief, prob_signal)))"

section \<open>Receiver's best response\<close>

text \<open>The inner loop: the expected utility of one action under the belief.\<close>

fun expected_utility_loop ::
  "'f arith \<Rightarrow> ('s, 'a, 'f) simulator \<Rightarrow> ('s, 'f) belief \<Rightarrow> 'a \<Rightarrow> 's list \<Rightarrow> 'f
     \<Rightarrow> error + 'f" where
  "expected_utility_loop ar sim posterior_belief action [] expected_utility =
     Inr expected_utility"
| "expected_utility_loop ar sim posterior_belief action (state # rest) expected_utility =
     (case table_lookup (u_r sim) (Some action) state of
        Inl e \<Rightarrow> Inl e
      | Inr u \<Rightarrow>
          (case posterior_belief state of None \<Rightarrow> Inl KeyError
           | Some q \<Rightarrow>
               expected_utility_loop ar sim posterior_belief action rest
                 (fadd ar expected_utility (fmul ar u q))))"

text \<open>
  The outer loop: an action replaces the incumbent only when its computed expected
  utility is strictly greater than the running maximum.
\<close>

fun optimal_action_loop ::
  "('f::linorder) arith \<Rightarrow> ('s, 'a, 'f) simulator \<Rightarrow> ('s, 'f) belief \<Rightarrow> 'a list \<Rightarrow> 'f
     \<Rightarrow> 'a option \<Rightarrow> error + 'a option" where
  "optimal_action_loop ar sim posterior_belief [] max_expected_utility optimal_action =
     Inr optimal_action"
| "optimal_action_loop ar sim posterior_belief (action # rest) max_expected_utility optimal_action =
     (case expected_utility_loop ar sim posterior_belief action (states sim) (fzero ar) of
        Inl e \<Rightarrow> Inl e
      | Inr expected_utility \<Rightarrow>
          if max_expected_utility < expected_utility
          then optimal_action_loop ar sim posterior_belief rest expected_utility (Some action)
          else optimal_action_loop ar sim posterior_belief rest max_expected_utility
                 optimal_action)"

text \<open>The running maximum starts at \<open>-float('inf')\<close>, the selected action at \<open>None\<close>.\<close>

definition get_receiver_optimal_action ::
  "('f::linorder) arith \<Rightarrow> ('s, 'a, 'f) simulator \<Rightarrow> ('s, 'f) belief \<Rightarrow> error + 'a option" where
  "get_receiver_optimal_action ar sim posterior_belief =
     optimal_action_loop ar sim posterior_belief (actions sim) (fneg_inf ar) None"

section \<open>Sender's expected utility\<close>

text \<open>
  Step 1: \<open>signals = set()\<close>, then \<open>signals.update(state_signals.keys())\<close> for
  every row of the scheme.
\<close>

definition collect_signals :: "('s, 'm, 'f) scheme \<Rightarrow> 'm set" where
  "collect_signals signaling_scheme =
     fold (\<lambda>(state, state_signals) signals. signals \<union> set (map fst state_signals))
       signaling_scheme {}"

text \<open>Step 2: one cached action and one cached marginal per signal.\<close>

fun optimal_action_for_signal_loop ::
  "('f::linorder) arith \<Rightarrow> ('s, 'a, 'f) simulator \<Rightarrow> ('s, 'm, 'f) scheme \<Rightarrow> 'm list
     \<Rightarrow> ('m \<rightharpoonup> 'a option) \<Rightarrow> ('m \<rightharpoonup> 'f) \<Rightarrow> error + (('m \<rightharpoonup> 'a option) \<times> ('m \<rightharpoonup> 'f))" where
  "optimal_action_for_signal_loop ar sim scheme [] optimal_action_for_signal prob_of_signal =
     Inr (optimal_action_for_signal, prob_of_signal)"
| "optimal_action_for_signal_loop ar sim scheme (signal # rest) optimal_action_for_signal
       prob_of_signal =
     (case calculate_posterior_belief ar sim signal scheme of
        Inl e \<Rightarrow> Inl e
      | Inr (posterior_belief, prob_m) \<Rightarrow>
          (case get_receiver_optimal_action ar sim posterior_belief of
             Inl e \<Rightarrow> Inl e
           | Inr a \<Rightarrow>
               optimal_action_for_signal_loop ar sim scheme rest
                 (optimal_action_for_signal(signal \<mapsto> a)) (prob_of_signal(signal \<mapsto> prob_m))))"

text \<open>Step 3, inner loop: the Sender's utility in one state, summed over the signals.\<close>

fun utility_for_state_loop ::
  "'f arith \<Rightarrow> ('s, 'a, 'f) simulator \<Rightarrow> ('s, 'm, 'f) scheme \<Rightarrow> ('m \<rightharpoonup> 'a option) \<Rightarrow> 's
     \<Rightarrow> 'm list \<Rightarrow> 'f \<Rightarrow> error + 'f" where
  "utility_for_state_loop ar sim scheme optimal_action_for_signal state [] utility_for_state =
     Inr utility_for_state"
| "utility_for_state_loop ar sim scheme optimal_action_for_signal state (signal # rest)
       utility_for_state =
     (case map_of scheme state of None \<Rightarrow> Inl KeyError
      | Some row \<Rightarrow>
          (case optimal_action_for_signal signal of None \<Rightarrow> Inl KeyError
           | Some action_taken \<Rightarrow>
               (case table_lookup (u_s sim) action_taken state of
                  Inl e \<Rightarrow> Inl e
                | Inr sender_utility \<Rightarrow>
                    utility_for_state_loop ar sim scheme optimal_action_for_signal state rest
                      (fadd ar utility_for_state
                         (fmul ar (get_default row signal (fzero ar)) sender_utility)))))"

text \<open>Step 3, outer loop: the prior-weighted sum over the model's states.\<close>

fun total_expected_utility_loop ::
  "'f arith \<Rightarrow> ('s, 'a, 'f) simulator \<Rightarrow> ('s, 'm, 'f) scheme \<Rightarrow> ('m \<rightharpoonup> 'a option) \<Rightarrow> 'm list
     \<Rightarrow> 's list \<Rightarrow> 'f \<Rightarrow> error + 'f" where
  "total_expected_utility_loop ar sim scheme optimal_action_for_signal signals []
       total_expected_utility =
     Inr total_expected_utility"
| "total_expected_utility_loop ar sim scheme optimal_action_for_signal signals (state # rest)
       total_expected_utility =
     (case utility_for_state_loop ar sim scheme optimal_action_for_signal state signals
             (fzero ar) of
        Inl e \<Rightarrow> Inl e
      | Inr utility_for_state \<Rightarrow>
          (case prior sim state of None \<Rightarrow> Inl KeyError
           | Some p \<Rightarrow>
               total_expected_utility_loop ar sim scheme optimal_action_for_signal signals rest
                 (fadd ar total_expected_utility (fmul ar p utility_for_state))))"

text \<open>
  The evaluator. Both loops over \<open>signals\<close> enumerate the same set object, in the
  same order. Python fixes that order by the hashes of the elements, not by the keys
  alone, so the enumeration is an argument of the model: \<open>iteration\<close> maps a set
  to the list in which \<open>for signal in signals\<close> visits it.
\<close>

definition calculate_sender_expected_utility ::
  "('f::linorder) arith \<Rightarrow> ('s, 'a, 'f) simulator \<Rightarrow> ('s, 'm, 'f) scheme
     \<Rightarrow> ('m set \<Rightarrow> 'm list) \<Rightarrow> error + 'f" where
  "calculate_sender_expected_utility ar sim signaling_scheme iteration =
     (let signals = collect_signals signaling_scheme in
      case optimal_action_for_signal_loop ar sim signaling_scheme (iteration signals)
             Map.empty Map.empty of
        Inl e \<Rightarrow> Inl e
      | Inr (optimal_action_for_signal, prob_of_signal) \<Rightarrow>
          total_expected_utility_loop ar sim signaling_scheme optimal_action_for_signal
            (iteration signals) (states sim) (fzero ar))"

section \<open>Baseline schemes\<close>

text \<open>\<open>scheme[k] = v\<close> is \<open>AList.update k v\<close>: in place if the key exists, appended otherwise.\<close>

definition get_full_revelation_scheme :: "'f arith \<Rightarrow> 's list \<Rightarrow> ('s, 's, 'f) scheme" where
  "get_full_revelation_scheme ar sts =
     fold (\<lambda>state_omega scheme.
             AList.update state_omega
               (fold (\<lambda>state_m row.
                        AList.update state_m
                          (if state_omega = state_m then fone ar else fzero ar) row)
                  sts [])
               scheme)
       sts []"

definition get_no_revelation_scheme :: "'f arith \<Rightarrow> 's list \<Rightarrow> ('s, string, 'f) scheme" where
  "get_no_revelation_scheme ar sts =
     fold (\<lambda>state scheme. AList.update state [(''NoSignal'', fone ar)] scheme) sts []"

section \<open>Validation of a provider's scheme\<close>

text \<open>
  What \<open>json.loads\<close> returns. A JSON object is a dictionary with string keys, held
  as an association list (Python keeps one binding per key).
\<close>

datatype json =
  JNull | JBool bool | JNum real | JStr string | JList "json list"
  | JDict "(string \<times> json) list"

text \<open>The second component of the validator's result; the source formats it as text.\<close>

datatype message =
  NotADictionary | KeysDoNotMatch | SignalsNotADictionary string | NoSignalsDefined string
  | SumNotOne string real | ValidScheme

text \<open>
  \<open>sum(signals.values())\<close>: Python adds numbers, counts \<open>True\<close> as 1 and
  \<open>False\<close> as 0, and raises \<open>TypeError\<close> on anything else.
\<close>

fun sum_values :: "(string \<times> json) list \<Rightarrow> real \<Rightarrow> error + real" where
  "sum_values [] acc = Inr acc"
| "sum_values ((k, JNum x) # rest) acc = sum_values rest (acc + x)"
| "sum_values ((k, JBool b) # rest) acc = sum_values rest (acc + (if b then 1 else 0))"
| "sum_values ((k, v) # rest) acc = Inl TypeError"

text \<open>The loop over \<open>scheme.items()\<close>.\<close>

fun validate_rows :: "(string \<times> json) list \<Rightarrow> error + (bool \<times> message)" where
  "validate_rows [] = Inr (True, ValidScheme)"
| "validate_rows ((state, JDict signals) # rest) =
     (if signals = [] then Inr (False, NoSignalsDefined state)
      else (case sum_values signals 0 of
              Inl e \<Rightarrow> Inl e
            | Inr prob_sum \<Rightarrow>
                if \<not> \<bar>prob_sum - 1\<bar> < 1 / 1000000 then Inr (False, SumNotOne state prob_sum)
                else validate_rows rest))"
| "validate_rows ((state, v) # rest) = Inr (False, SignalsNotADictionary state)"

fun validate_llm_scheme :: "json \<Rightarrow> string list \<Rightarrow> error + (bool \<times> message)" where
  "validate_llm_scheme (JDict scheme) sts =
     (if set (map fst scheme) \<noteq> set sts then Inr (False, KeysDoNotMatch)
      else validate_rows scheme)"
| "validate_llm_scheme v sts = Inr (False, NotADictionary)"

text \<open>
  Step 3 of \<open>get_llm_strategy\<close>, from the decoded output on: the scheme is handed on
  only when the validator accepts it, and an exception of the validator is caught and
  reported as an invalid run. The status text is left out.
\<close>

definition get_llm_strategy :: "json \<Rightarrow> string list \<Rightarrow> json option \<times> bool" where
  "get_llm_strategy llm_scheme sts =
     (case validate_llm_scheme llm_scheme sts of
        Inl e \<Rightarrow> (None, False)
      | Inr (is_valid, message) \<Rightarrow> if is_valid then (Some llm_scheme, True) else (None, False))"

section \<open>Two arithmetics\<close>

text \<open>The reals with an element below all of them, which stands for \<open>-float('inf')\<close>.\<close>

datatype xreal = MinusInf | Real real

instantiation xreal :: linorder
begin

definition less_eq_xreal :: "xreal \<Rightarrow> xreal \<Rightarrow> bool" where
  "less_eq_xreal x y =
     (case x of MinusInf \<Rightarrow> True
      | Real a \<Rightarrow> (case y of MinusInf \<Rightarrow> False | Real b \<Rightarrow> a \<le> b))"

definition less_xreal :: "xreal \<Rightarrow> xreal \<Rightarrow> bool" where
  "less_xreal x y = (x \<le> y \<and> \<not> y \<le> (x::xreal))"

instance
  by standard (auto simp: less_eq_xreal_def less_xreal_def split: xreal.splits)

end

text \<open>The exact arithmetic: no rounding.\<close>

fun exact_add :: "xreal \<Rightarrow> xreal \<Rightarrow> xreal" where
  "exact_add (Real a) (Real b) = Real (a + b)"
| "exact_add x y = MinusInf"

fun exact_mul :: "xreal \<Rightarrow> xreal \<Rightarrow> xreal" where
  "exact_mul (Real a) (Real b) = Real (a * b)"
| "exact_mul x y = MinusInf"

fun exact_div :: "xreal \<Rightarrow> xreal \<Rightarrow> xreal" where
  "exact_div (Real a) (Real b) = Real (a / b)"
| "exact_div x y = MinusInf"

definition exact :: "xreal arith" where
  "exact = \<lparr>fzero = Real 0, fone = Real 1, fneg_inf = MinusInf,
             fadd = exact_add, fmul = exact_mul, fdiv = exact_div\<rparr>"

text \<open>
  The binary64 arithmetic: every result is rounded to the nearest number with a
  significand of 53 bits, ties to the even significand, as Python's float operations do.
  The exponent is unbounded here, so overflow to infinity and underflow to zero are not
  part of it; the inputs evaluated below stay far from both.
\<close>

definition round_half_even :: "real \<Rightarrow> int" where
  "round_half_even x =
     (let f = \<lfloor>x\<rfloor>; r = x - of_int f in
      if r < 1 / 2 then f else if 1 / 2 < r then f + 1 else if even f then f else f + 1)"

text \<open>Scale a positive number into the interval from \<open>2^52\<close> to \<open>2^53\<close>.\<close>

fun scale53 :: "nat \<Rightarrow> real \<Rightarrow> real \<Rightarrow> real \<times> real" where
  "scale53 0 x s = (x, s)"
| "scale53 (Suc n) x s =
     (if x < 4503599627370496 then scale53 n (2 * x) (s / 2)
      else if 9007199254740992 \<le> x then scale53 n (x / 2) (2 * s)
      else (x, s))"

definition round53 :: "real \<Rightarrow> real" where
  "round53 x =
     (if x = 0 then 0
      else (case scale53 2200 (\<bar>x\<bar> * 4503599627370496) (1 / 4503599627370496) of
              (y, s) \<Rightarrow> sgn x * of_int (round_half_even y) * s))"

fun binary64_add :: "xreal \<Rightarrow> xreal \<Rightarrow> xreal" where
  "binary64_add (Real a) (Real b) = Real (round53 (a + b))"
| "binary64_add x y = MinusInf"

fun binary64_mul :: "xreal \<Rightarrow> xreal \<Rightarrow> xreal" where
  "binary64_mul (Real a) (Real b) = Real (round53 (a * b))"
| "binary64_mul x y = MinusInf"

fun binary64_div :: "xreal \<Rightarrow> xreal \<Rightarrow> xreal" where
  "binary64_div (Real a) (Real b) = Real (round53 (a / b))"
| "binary64_div x y = MinusInf"

definition binary64 :: "xreal arith" where
  "binary64 = \<lparr>fzero = Real 0, fone = Real 1, fneg_inf = MinusInf,
                fadd = binary64_add, fmul = binary64_mul, fdiv = binary64_div\<rparr>"

text \<open>A decimal literal of the source: the double nearest to it.\<close>

definition double :: "real \<Rightarrow> xreal" where
  "double x = Real (round53 x)"

section \<open>Specification-level quantities\<close>

text \<open>
  These definitions follow the wording of the specification, not the code; the theorems
  below compare them with the loops above. Every sum is \<open>fsum\<close>, the sum in the
  order of the list, so the quantities are the numbers the arithmetic computes.
  \<open>scheme_prob\<close> is \<open>scheme[\<omega>].get(signal, 0)\<close>, read where the row exists.
\<close>

definition scheme_prob :: "'f arith \<Rightarrow> ('s, 'm, 'f) scheme \<Rightarrow> 's \<Rightarrow> 'm \<Rightarrow> 'f" where
  "scheme_prob ar scheme w m = get_default (the (map_of scheme w)) m (fzero ar)"

definition spec_marginal ::
  "'f arith \<Rightarrow> ('s, 'a, 'f) simulator \<Rightarrow> ('s, 'm, 'f) scheme \<Rightarrow> 'm \<Rightarrow> 'f" where
  "spec_marginal ar sim scheme m =
     fsum ar (map (\<lambda>w. fmul ar (scheme_prob ar scheme w m) (the (prior sim w))) (states sim))"

definition spec_posterior ::
  "'f arith \<Rightarrow> ('s, 'a, 'f) simulator \<Rightarrow> ('s, 'm, 'f) scheme \<Rightarrow> 'm \<Rightarrow> ('s, 'f) belief" where
  "spec_posterior ar sim scheme m =
     (\<lambda>w. if w \<in> set (states sim)
          then Some (fdiv ar (fmul ar (scheme_prob ar scheme w m) (the (prior sim w)))
                       (spec_marginal ar sim scheme m))
          else None)"

text \<open>The belief after a signal: the posterior, or the prior when the marginal is zero.\<close>

definition spec_belief ::
  "'f arith \<Rightarrow> ('s, 'a, 'f) simulator \<Rightarrow> ('s, 'm, 'f) scheme \<Rightarrow> 'm \<Rightarrow> ('s, 'f) belief" where
  "spec_belief ar sim scheme m =
     (if spec_marginal ar sim scheme m = fzero ar then prior sim
      else spec_posterior ar sim scheme m)"

text \<open>EU(a), the Receiver's expected utility of an action under a belief.\<close>

definition spec_expected_utility ::
  "'f arith \<Rightarrow> ('s, 'a, 'f) simulator \<Rightarrow> ('s, 'f) belief \<Rightarrow> 'a \<Rightarrow> 'f" where
  "spec_expected_utility ar sim belief a =
     fsum ar (map (\<lambda>w. fmul ar (the (the (u_r sim a) w)) (the (belief w))) (states sim))"

text \<open>
  The first action of the list whose expected utility no later action exceeds and every
  earlier action stays strictly below: the earliest maximiser.
\<close>

definition first_maximiser ::
  "('f::linorder) arith \<Rightarrow> ('s, 'a, 'f) simulator \<Rightarrow> ('s, 'f) belief \<Rightarrow> 'a \<Rightarrow> bool" where
  "first_maximiser ar sim belief a =
     (\<exists>pre suf. actions sim = pre @ a # suf
        \<and> (\<forall>x\<in>set pre. spec_expected_utility ar sim belief x
                           < spec_expected_utility ar sim belief a)
        \<and> (\<forall>x\<in>set suf. spec_expected_utility ar sim belief x
                           \<le> spec_expected_utility ar sim belief a))"

text \<open>
  a*(m): the action the code's best-response selection returns on the posterior the code
  computes for the signal.
\<close>

definition best_response ::
  "('f::linorder) arith \<Rightarrow> ('s, 'a, 'f) simulator \<Rightarrow> ('s, 'm, 'f) scheme \<Rightarrow> 'm \<Rightarrow> 'a option" where
  "best_response ar sim scheme m =
     (case calculate_posterior_belief ar sim m scheme of
        Inl e \<Rightarrow> None
      | Inr (posterior_belief, prob_m) \<Rightarrow>
          (case get_receiver_optimal_action ar sim posterior_belief of
             Inl e \<Rightarrow> None
           | Inr a \<Rightarrow> a))"

text \<open>The double sum of the specification's Step 3, over the signals in the given order.\<close>

definition spec_total ::
  "('f::linorder) arith \<Rightarrow> ('s, 'a, 'f) simulator \<Rightarrow> ('s, 'm, 'f) scheme \<Rightarrow> 'm list \<Rightarrow> 'f" where
  "spec_total ar sim scheme signals =
     fsum ar (map (\<lambda>w. fmul ar (the (prior sim w))
                (fsum ar (map (\<lambda>m. fmul ar (scheme_prob ar scheme w m)
                            (the (the (u_s sim (the (best_response ar sim scheme m))) w)))
                          signals)))
              (states sim))"

text \<open>Every state of the model has a row in the scheme and a mass in the prior.\<close>

definition states_defined :: "('s, 'a, 'f) simulator \<Rightarrow> ('s, 'm, 'f) scheme \<Rightarrow> bool" where
  "states_defined sim scheme =
     list_all (\<lambda>w. map_of scheme w \<noteq> None \<and> prior sim w \<noteq> None) (states sim)"

text \<open>A utility table has an entry for every pair of a listed action and a listed state.\<close>

definition table_defined :: "('a \<rightharpoonup> ('s \<rightharpoonup> 'f)) \<Rightarrow> 'a list \<Rightarrow> 's list \<Rightarrow> bool" where
  "table_defined t acts sts =
     list_all (\<lambda>a. case t a of None \<Rightarrow> False | Some row \<Rightarrow> list_all (\<lambda>w. row w \<noteq> None) sts) acts"

text \<open>
  The data model's requirements on a game: at least one action, a prior mass for every
  state, and both utility tables fully defined.
\<close>

definition model_defined :: "('s, 'a, 'f) simulator \<Rightarrow> bool" where
  "model_defined sim =
     (actions sim \<noteq> [] \<and> list_all (\<lambda>w. prior sim w \<noteq> None) (states sim)
      \<and> table_defined (u_r sim) (actions sim) (states sim)
      \<and> table_defined (u_s sim) (actions sim) (states sim))"

text \<open>
  Some action has a computed expected utility above \<open>-float('inf')\<close> under the belief;
  with finite payoffs and a finite belief every action has.
\<close>

definition selectable ::
  "('f::linorder) arith \<Rightarrow> ('s, 'a, 'f) simulator \<Rightarrow> ('s, 'f) belief \<Rightarrow> bool" where
  "selectable ar sim belief =
     list_ex (\<lambda>a. fneg_inf ar < spec_expected_utility ar sim belief a) (actions sim)"

text \<open>The same, for the belief after each signal of a list.\<close>

definition responds ::
  "('f::linorder) arith \<Rightarrow> ('s, 'a, 'f) simulator \<Rightarrow> ('s, 'm, 'f) scheme \<Rightarrow> 'm list \<Rightarrow> bool" where
  "responds ar sim scheme signals =
     list_all (\<lambda>m. selectable ar sim (spec_belief ar sim scheme m)) signals"

text \<open>
  A list enumerates the signals of a scheme: each collected signal once, nothing else. An
  enumeration of a Python set is such a list.
\<close>

definition signal_order :: "('s, 'm, 'f) scheme \<Rightarrow> 'm list \<Rightarrow> bool" where
  "signal_order scheme signals = (distinct signals \<and> set signals = collect_signals scheme)"



text \<open>
  The laws of one on the prior masses: 1.0 times a mass and a mass divided by 1.0 are the
  mass itself. Doubles have them.
\<close>

definition one_laws :: "'f arith \<Rightarrow> ('s, 'a, 'f) simulator \<Rightarrow> bool" where
  "one_laws ar sim =
     list_all (\<lambda>w. fmul ar (fone ar) (the (prior sim w)) = the (prior sim w)
                  \<and> fdiv ar (the (prior sim w)) (fone ar) = the (prior sim w)) (states sim)"

text \<open>A valid prior: masses at least 0 that sum to 1 within the tolerance 1e-6.\<close>

definition spec_valid_prior :: "('s, 'a, xreal) simulator \<Rightarrow> bool" where
  "spec_valid_prior sim =
     (list_all (\<lambda>w. case prior sim w of Some (Real p) \<Rightarrow> 0 \<le> p | _ \<Rightarrow> False) (states sim)
      \<and> (case fsum exact (map (\<lambda>w. the (prior sim w)) (states sim)) of
            Real t \<Rightarrow> \<bar>t - 1\<bar> < 1 / 1000000
          | MinusInf \<Rightarrow> False))"

section \<open>Concrete inputs\<close>

text \<open>\<open>scenario_2\<close> of the repository; all its numbers are doubles.\<close>

definition scenario_2 :: "(string, string, xreal) simulator" where
  "scenario_2 =
     \<lparr> states = [''Good'', ''Bad''],
       actions = [''Accept'', ''Reject''],
       prior = [''Good'' \<mapsto> Real (1 / 2), ''Bad'' \<mapsto> Real (1 / 2)],
       u_s = [''Accept'' \<mapsto> [''Good'' \<mapsto> Real 1, ''Bad'' \<mapsto> Real 1],
              ''Reject'' \<mapsto> [''Good'' \<mapsto> Real 0, ''Bad'' \<mapsto> Real 0]],
       u_r = [''Accept'' \<mapsto> [''Good'' \<mapsto> Real 1, ''Bad'' \<mapsto> Real (- 1)],
              ''Reject'' \<mapsto> [''Good'' \<mapsto> Real 0, ''Bad'' \<mapsto> Real 0]] \<rparr>"

text \<open>The binary scenario with no action.\<close>

definition scenario_2_no_actions :: "(string, string, xreal) simulator" where
  "scenario_2_no_actions = scenario_2\<lparr>actions := []\<rparr>"

text \<open>
  The binary scenario with the prior 0.5 and \<open>0.5 - 2^-30\<close>, two doubles whose sum
  \<open>1 - 2^-30\<close> is a double within 1e-6 of 1.
\<close>

definition scenario_2_skewed :: "(string, string, xreal) simulator" where
  "scenario_2_skewed =
     scenario_2\<lparr>prior := [''Good'' \<mapsto> Real (1 / 2), ''Bad'' \<mapsto> Real (536870911 / 1073741824)]\<rparr>"

text \<open>A pooling scheme with a row for a state the binary scenario does not have.\<close>

definition scheme_extra_state :: "(string, string, xreal) scheme" where
  "scheme_extra_state =
     [(''Good'', [(''NoSignal'', Real 1)]), (''Bad'', [(''NoSignal'', Real 1)]),
      (''Ugly'', [(''Alarm'', Real 1)])]"

text \<open>A scheme without a row for the state \<open>Bad\<close>.\<close>

definition scheme_missing_state :: "(string, string, xreal) scheme" where
  "scheme_missing_state = [(''Good'', [(''NoSignal'', Real 1)])]"

text \<open>A scheme in which the signal \<open>Never\<close> has probability 0 where it is listed.\<close>

definition scheme_unreachable :: "(string, string, xreal) scheme" where
  "scheme_unreachable =
     [(''Good'', [(''Go'', Real 1), (''Never'', Real 0)]), (''Bad'', [(''Go'', Real 1)])]"


text \<open>A decoded output whose first row sums to 1 with a negative entry.\<close>

definition negative_scheme :: json where
  "negative_scheme =
     JDict [(''Good'', JDict [(''Recommend'', JNum (3 / 2)), (''DoNotRecommend'', JNum (- 1 / 2))]),
            (''Bad'', JDict [(''Recommend'', JNum 1)])]"

text \<open>\<open>scenario_1\<close> of the repository, its decimal literals as doubles.\<close>

definition scenario_1 :: "(string, string, xreal) simulator" where
  "scenario_1 =
     \<lparr> states = [''High Quality'', ''Medium Quality'', ''Low Quality''],
       actions = [''Buy'', ''Dont Buy''],
       prior = [''High Quality'' \<mapsto> Real (1 / 2), ''Medium Quality'' \<mapsto> double (2 / 10),
                ''Low Quality'' \<mapsto> double (3 / 10)],
       u_s = [''Buy'' \<mapsto> [''High Quality'' \<mapsto> Real 10, ''Medium Quality'' \<mapsto> Real 10,
                             ''Low Quality'' \<mapsto> Real 10],
              ''Dont Buy'' \<mapsto> [''High Quality'' \<mapsto> Real 0, ''Medium Quality'' \<mapsto> Real 0,
                                  ''Low Quality'' \<mapsto> Real 0]],
       u_r = [''Buy'' \<mapsto> [''High Quality'' \<mapsto> Real 5, ''Medium Quality'' \<mapsto> Real 1,
                             ''Low Quality'' \<mapsto> Real (- 10)],
              ''Dont Buy'' \<mapsto> [''High Quality'' \<mapsto> Real 0, ''Medium Quality'' \<mapsto> Real 0,
                                  ''Low Quality'' \<mapsto> Real 0]] \<rparr>"

text \<open>
  A scheme for \<open>scenario_1\<close> after whose signal A buying has the exact expected
  utility 0 from the decimal numbers, and a computed one just below 0.
\<close>

definition scheme_near_tie :: "(string, string, xreal) scheme" where
  "scheme_near_tie =
     [(''High Quality'', [(''A'', Real 0), (''B'', Real 1)]),
      (''Medium Quality'', [(''A'', double (3 / 10)), (''B'', double (7 / 10))]),
      (''Low Quality'', [(''A'', double (2 / 100)), (''B'', double (98 / 100))])]"

text \<open>
  A game in which accepting has the exact expected utility one half under the belief
  below, and the computed one \<open>2^53 + 0.5 - 2^53 = 0.0\<close>.
\<close>

definition rounding_tie :: "(string, string, xreal) simulator" where
  "rounding_tie =
     \<lparr> states = [''A'', ''B'', ''C''],
       actions = [''Reject'', ''Accept''],
       prior = [''A'' \<mapsto> Real (1 / 4), ''B'' \<mapsto> Real (1 / 2), ''C'' \<mapsto> Real (1 / 4)],
       u_s = [''Reject'' \<mapsto> [''A'' \<mapsto> Real 0, ''B'' \<mapsto> Real 0, ''C'' \<mapsto> Real 0],
              ''Accept'' \<mapsto> [''A'' \<mapsto> Real 1, ''B'' \<mapsto> Real 1, ''C'' \<mapsto> Real 1]],
       u_r = [''Reject'' \<mapsto> [''A'' \<mapsto> Real 0, ''B'' \<mapsto> Real 0, ''C'' \<mapsto> Real 0],
              ''Accept'' \<mapsto> [''A'' \<mapsto> Real 36028797018963968, ''B'' \<mapsto> Real 1,
                                ''C'' \<mapsto> Real (- 36028797018963968)]] \<rparr>"

section \<open>Facts about the two arithmetics\<close>

lemma less_xreal_simps [simp]:
  "Real a < Real b \<longleftrightarrow> a < b" "MinusInf < Real a" "\<not> x < MinusInf"
  by (auto simp: less_xreal_def less_eq_xreal_def split: xreal.splits)

lemma less_eq_xreal_simps [simp]:
  "Real a \<le> Real b \<longleftrightarrow> a \<le> b" "MinusInf \<le> x" "\<not> Real a \<le> MinusInf"
  by (auto simp: less_eq_xreal_def split: xreal.splits)

lemma scale53_numeral [simp]:
  "scale53 (numeral k) x s =
     (if x < 4503599627370496 then scale53 (pred_numeral k) (2 * x) (s / 2)
      else if 9007199254740992 \<le> x then scale53 (pred_numeral k) (x / 2) (2 * s)
      else (x, s))"
  by (simp add: numeral_eq_Suc)

lemma exact_fields [simp]:
  "fzero exact = Real 0" "fone exact = Real 1" "fneg_inf exact = MinusInf"
  "fadd exact = exact_add" "fmul exact = exact_mul" "fdiv exact = exact_div"
  by (simp_all add: exact_def)

lemma binary64_fields [simp]:
  "fzero binary64 = Real 0" "fone binary64 = Real 1" "fneg_inf binary64 = MinusInf"
  "fadd binary64 = binary64_add" "fmul binary64 = binary64_mul" "fdiv binary64 = binary64_div"
  by (simp_all add: binary64_def)

lemma round53_values [simp]:
  "round53 0 = 0" "round53 1 = 1" "round53 (- 1) = - 1" "round53 (1 / 2) = 1 / 2"
  by (simp_all add: round53_def round_half_even_def)

section \<open>Posterior belief: the loops compute Bayes' rule\<close>

lemma prob_signal_loop_eq:
  "list_all (\<lambda>w. map_of scheme w \<noteq> None \<and> prior sim w \<noteq> None) ws \<Longrightarrow>
   prob_signal_loop ar sim m scheme ws acc =
     Inr (foldl (fadd ar) acc
            (map (\<lambda>w. fmul ar (scheme_prob ar scheme w m) (the (prior sim w))) ws))"
  by (induction ws arbitrary: acc) (auto simp: scheme_prob_def)

lemma posterior_loop_eq:
  "list_all (\<lambda>w. map_of scheme w \<noteq> None \<and> prior sim w \<noteq> None) ws \<Longrightarrow>
   posterior_loop ar sim m scheme ps ws post =
     Inr (\<lambda>w. if w \<in> set ws
              then Some (fdiv ar (fmul ar (scheme_prob ar scheme w m) (the (prior sim w))) ps)
              else post w)"
proof (induction ws arbitrary: post)
  case Nil
  then show ?case by simp
next
  case (Cons a ws)
  from Cons.prems obtain row p where r: "map_of scheme a = Some row" "prior sim a = Some p"
    and rest: "list_all (\<lambda>w. map_of scheme w \<noteq> None \<and> prior sim w \<noteq> None) ws"
    by auto
  show ?case
    using r by (simp add: Cons.IH [OF rest] scheme_prob_def fun_eq_iff)
qed

lemma calculate_posterior_belief_eq:
  assumes "states_defined sim scheme"
  shows "calculate_posterior_belief ar sim m scheme =
     Inr (if spec_marginal ar sim scheme m = fzero ar then (prior sim, fzero ar)
          else (spec_posterior ar sim scheme m, spec_marginal ar sim scheme m))"
proof -
  from assms have d: "list_all (\<lambda>w. map_of scheme w \<noteq> None \<and> prior sim w \<noteq> None) (states sim)"
    by (simp add: states_defined_def)
  have 1: "prob_signal_loop ar sim m scheme (states sim) (fzero ar)
             = Inr (spec_marginal ar sim scheme m)"
    by (simp add: prob_signal_loop_eq [OF d] spec_marginal_def fsum_def)
  have 2: "posterior_loop ar sim m scheme (spec_marginal ar sim scheme m) (states sim) Map.empty =
             Inr (spec_posterior ar sim scheme m)"
    by (simp add: posterior_loop_eq [OF d] spec_posterior_def)
  show ?thesis
    by (simp add: calculate_posterior_belief_def 1 2)
qed

lemma calculate_posterior_belief_spec:
  assumes "states_defined sim scheme"
  shows "calculate_posterior_belief ar sim m scheme =
           Inr (spec_belief ar sim scheme m, spec_marginal ar sim scheme m)"
  by (simp add: calculate_posterior_belief_eq [OF assms] spec_belief_def)

lemma spec_belief_defined:
  assumes "states_defined sim scheme"
  shows "\<forall>w\<in>set (states sim). spec_belief ar sim scheme m w \<noteq> None"
  using assms
  by (auto simp: spec_belief_def spec_posterior_def states_defined_def list_all_iff)

text \<open>
  C1. When every state has a row and a prior mass, and the marginal probability of the
  signal, the sum over the states of \<open>scheme[\<omega>].get(signal, 0)\<close> times the prior as
  the code computes it, is not zero, the posterior computation returns that marginal
  together with the mapping that gives each state its joint probability divided by the
  marginal. A signal that a row does not list counts as probability 0 and raises nothing.
\<close>

theorem posterior_bayes:
  assumes "states_defined sim scheme" and "spec_marginal ar sim scheme signal \<noteq> fzero ar"
  shows "calculate_posterior_belief ar sim signal scheme =
           Inr (spec_posterior ar sim scheme signal, spec_marginal ar sim scheme signal)
         \<and> (\<forall>w row. map_of scheme w = Some row \<longrightarrow> signal \<notin> fst ` set row \<longrightarrow>
               scheme_prob ar scheme w signal = fzero ar)"
proof
  show "calculate_posterior_belief ar sim signal scheme =
           Inr (spec_posterior ar sim scheme signal, spec_marginal ar sim scheme signal)"
    using assms by (simp add: calculate_posterior_belief_eq)
  show "\<forall>w row. map_of scheme w = Some row \<longrightarrow> signal \<notin> fst ` set row \<longrightarrow>
               scheme_prob ar scheme w signal = fzero ar"
    by (force simp: scheme_prob_def get_default_def split: option.splits dest: map_of_SomeD)
qed

text \<open>
  C4. When the marginal probability of the signal is exactly 0, the posterior computation
  returns the model's prior as the belief and 0.0 as the marginal, and raises nothing.
\<close>

theorem posterior_unreachable:
  assumes "states_defined sim scheme" and "spec_marginal ar sim scheme signal = fzero ar"
  shows "calculate_posterior_belief ar sim signal scheme = Inr (prior sim, fzero ar)"
  using assms by (simp add: calculate_posterior_belief_eq)

section \<open>Best response: the first maximiser\<close>

lemma table_defined_lookup:
  assumes "table_defined t acts sts" and "a \<in> set acts" and "w \<in> set sts"
  shows "table_lookup t (Some a) w = Inr (the (the (t a) w))"
proof -
  from assms(1,2) obtain row where row: "t a = Some row" "list_all (\<lambda>w. row w \<noteq> None) sts"
    by (auto simp: table_defined_def list_all_iff split: option.splits)
  from row(2) assms(3) obtain v where "row w = Some v"
    by (auto simp: list_all_iff)
  with row(1) show ?thesis by simp
qed

lemma expected_utility_loop_eq:
  assumes "table_defined (u_r sim) acts sts" and "a \<in> set acts"
    and "set ws \<subseteq> set sts" and "\<forall>w\<in>set ws. belief w \<noteq> None"
  shows "expected_utility_loop ar sim belief a ws acc =
           Inr (foldl (fadd ar) acc
                  (map (\<lambda>w. fmul ar (the (the (u_r sim a) w)) (the (belief w))) ws))"
  using assms(3,4)
proof (induction ws arbitrary: acc)
  case Nil
  then show ?case by simp
next
  case (Cons w ws)
  from Cons.prems have "w \<in> set sts" by simp
  then have l: "table_lookup (u_r sim) (Some a) w = Inr (the (the (u_r sim a) w))"
    using assms(1,2) by (rule table_defined_lookup [rotated 2])
  from Cons.prems obtain q where q: "belief w = Some q" by auto
  from Cons.prems have r: "set ws \<subseteq> set sts" "\<forall>w\<in>set ws. belief w \<noteq> None" by auto
  show ?case
    by (simp add: l q Cons.IH [OF r] del: table_lookup.simps)
qed

lemma expected_utility_spec:
  assumes "table_defined (u_r sim) (actions sim) (states sim)" and "a \<in> set (actions sim)"
    and "\<forall>w\<in>set (states sim). belief w \<noteq> None"
  shows "expected_utility_loop ar sim belief a (states sim) (fzero ar)
           = Inr (spec_expected_utility ar sim belief a)"
  using expected_utility_loop_eq [OF assms(1,2) subset_refl assms(3), of ar "fzero ar"]
  by (simp add: spec_expected_utility_def fsum_def)

lemma optimal_action_loop_char:
  fixes ar :: "('f::linorder) arith"
  assumes "table_defined (u_r sim) (actions sim) (states sim)"
    and "\<forall>w\<in>set (states sim). belief w \<noteq> None"
    and "set acts \<subseteq> set (actions sim)"
  shows "\<exists>r. optimal_action_loop ar sim belief acts mx opt = Inr r \<and>
           ((r = opt \<and> (\<forall>a\<in>set acts. \<not> mx < spec_expected_utility ar sim belief a))
            \<or> (\<exists>pre a suf. acts = pre @ a # suf \<and> r = Some a
                 \<and> mx < spec_expected_utility ar sim belief a
                 \<and> (\<forall>x\<in>set pre. spec_expected_utility ar sim belief x
                                    < spec_expected_utility ar sim belief a)
                 \<and> (\<forall>x\<in>set suf. spec_expected_utility ar sim belief x
                                    \<le> spec_expected_utility ar sim belief a)))"
  using assms(3)
proof (induction acts arbitrary: mx opt)
  case Nil
  then show ?case by simp
next
  case (Cons b acts)
  let ?EU = "spec_expected_utility ar sim belief"
  from Cons.prems have b: "b \<in> set (actions sim)" and sub: "set acts \<subseteq> set (actions sim)"
    by auto
  have eu: "expected_utility_loop ar sim belief b (states sim) (fzero ar) = Inr (?EU b)"
    using assms(1) b assms(2) by (rule expected_utility_spec)
  show ?case
  proof (cases "mx < ?EU b")
    case True
    then have step: "optimal_action_loop ar sim belief (b # acts) mx opt =
        optimal_action_loop ar sim belief acts (?EU b) (Some b)"
      by (simp add: eu)
    from Cons.IH [OF sub, of "?EU b" "Some b"]
    obtain r where r: "optimal_action_loop ar sim belief acts (?EU b) (Some b) = Inr r"
      and alt: "(r = Some b \<and> (\<forall>a\<in>set acts. \<not> ?EU b < ?EU a))
            \<or> (\<exists>pre a suf. acts = pre @ a # suf \<and> r = Some a
                 \<and> ?EU b < ?EU a
                 \<and> (\<forall>x\<in>set pre. ?EU x < ?EU a)
                 \<and> (\<forall>x\<in>set suf. ?EU x \<le> ?EU a))"
      by blast
    from alt show ?thesis
    proof
      assume h: "r = Some b \<and> (\<forall>a\<in>set acts. \<not> ?EU b < ?EU a)"
      then have "b # acts = [] @ b # acts \<and> r = Some b \<and> mx < ?EU b
          \<and> (\<forall>x\<in>set []. ?EU x < ?EU b) \<and> (\<forall>x\<in>set acts. ?EU x \<le> ?EU b)"
        using True by (auto simp: not_less)
      then show ?thesis unfolding step r by blast
    next
      assume "\<exists>pre a suf. acts = pre @ a # suf \<and> r = Some a
                 \<and> ?EU b < ?EU a
                 \<and> (\<forall>x\<in>set pre. ?EU x < ?EU a)
                 \<and> (\<forall>x\<in>set suf. ?EU x \<le> ?EU a)"
      then obtain pre a suf where h: "acts = pre @ a # suf" "r = Some a" "?EU b < ?EU a"
        "\<forall>x\<in>set pre. ?EU x < ?EU a" "\<forall>x\<in>set suf. ?EU x \<le> ?EU a"
        by auto
      have "mx < ?EU a"
        using True h(3) by (rule less_trans)
      with h have "b # acts = (b # pre) @ a # suf \<and> r = Some a \<and> mx < ?EU a
          \<and> (\<forall>x\<in>set (b # pre). ?EU x < ?EU a) \<and> (\<forall>x\<in>set suf. ?EU x \<le> ?EU a)"
        by simp
      then show ?thesis unfolding step r by blast
    qed
  next
    case False
    then have step: "optimal_action_loop ar sim belief (b # acts) mx opt =
        optimal_action_loop ar sim belief acts mx opt"
      by (simp add: eu)
    from Cons.IH [OF sub, of mx opt]
    obtain r where r: "optimal_action_loop ar sim belief acts mx opt = Inr r"
      and alt: "(r = opt \<and> (\<forall>a\<in>set acts. \<not> mx < ?EU a))
            \<or> (\<exists>pre a suf. acts = pre @ a # suf \<and> r = Some a
                 \<and> mx < ?EU a
                 \<and> (\<forall>x\<in>set pre. ?EU x < ?EU a)
                 \<and> (\<forall>x\<in>set suf. ?EU x \<le> ?EU a))"
      by blast
    from alt show ?thesis
    proof
      assume "r = opt \<and> (\<forall>a\<in>set acts. \<not> mx < ?EU a)"
      then have "r = opt \<and> (\<forall>a\<in>set (b # acts). \<not> mx < ?EU a)"
        using False by simp
      then show ?thesis unfolding step r by blast
    next
      assume "\<exists>pre a suf. acts = pre @ a # suf \<and> r = Some a
                 \<and> mx < ?EU a
                 \<and> (\<forall>x\<in>set pre. ?EU x < ?EU a)
                 \<and> (\<forall>x\<in>set suf. ?EU x \<le> ?EU a)"
      then obtain pre a suf where h: "acts = pre @ a # suf" "r = Some a" "mx < ?EU a"
        "\<forall>x\<in>set pre. ?EU x < ?EU a" "\<forall>x\<in>set suf. ?EU x \<le> ?EU a"
        by auto
      have "?EU b < ?EU a"
        using False h(3) by simp
      with h have "b # acts = (b # pre) @ a # suf \<and> r = Some a \<and> mx < ?EU a
          \<and> (\<forall>x\<in>set (b # pre). ?EU x < ?EU a) \<and> (\<forall>x\<in>set suf. ?EU x \<le> ?EU a)"
        by simp
      then show ?thesis unfolding step r by blast
    qed
  qed
qed

lemma optimal_action_first_maximiser:
  fixes ar :: "('f::linorder) arith"
  assumes "table_defined (u_r sim) (actions sim) (states sim)"
    and "\<forall>w\<in>set (states sim). belief w \<noteq> None"
    and "selectable ar sim belief"
  shows "\<exists>pre a suf. actions sim = pre @ a # suf
           \<and> get_receiver_optimal_action ar sim belief = Inr (Some a)
           \<and> (\<forall>x\<in>set pre. spec_expected_utility ar sim belief x
                             < spec_expected_utility ar sim belief a)
           \<and> (\<forall>x\<in>set suf. spec_expected_utility ar sim belief x
                             \<le> spec_expected_utility ar sim belief a)"
proof -
  from optimal_action_loop_char [OF assms(1,2) subset_refl, of ar "fneg_inf ar" None]
  obtain r where r: "optimal_action_loop ar sim belief (actions sim) (fneg_inf ar) None = Inr r"
    and alt: "(r = None \<and> (\<forall>a\<in>set (actions sim).
                  \<not> fneg_inf ar < spec_expected_utility ar sim belief a))
            \<or> (\<exists>pre a suf. actions sim = pre @ a # suf \<and> r = Some a
                 \<and> fneg_inf ar < spec_expected_utility ar sim belief a
                 \<and> (\<forall>x\<in>set pre. spec_expected_utility ar sim belief x
                                   < spec_expected_utility ar sim belief a)
                 \<and> (\<forall>x\<in>set suf. spec_expected_utility ar sim belief x
                                   \<le> spec_expected_utility ar sim belief a))"
    by blast
  from assms(3) have "\<not> (\<forall>a\<in>set (actions sim).
                  \<not> fneg_inf ar < spec_expected_utility ar sim belief a)"
    by (auto simp: selectable_def list_ex_iff)
  with alt r show ?thesis
    unfolding get_receiver_optimal_action_def by auto
qed

text \<open>
  C2. For a model with at least one action, a fully defined Receiver table and a belief
  defined on the states, where some computed expected utility is above the initial
  \<open>-float('inf')\<close>, the best-response selection returns an action of the list whose
  expected utility EU(a), the sum over the states of the Receiver's utility times the
  belief as the code computes it, is at least that of every later action and strictly
  greater than that of every earlier one: among the actions whose computed values tie for
  the maximum, the earliest is returned.
\<close>

theorem best_response_first_maximiser:
  fixes ar :: "('f::linorder) arith"
  assumes "actions sim \<noteq> []"
    and "table_defined (u_r sim) (actions sim) (states sim)"
    and "list_all (\<lambda>w. posterior_belief w \<noteq> None) (states sim)"
    and "selectable ar sim posterior_belief"
  shows "\<exists>pre a suf. actions sim = pre @ a # suf
           \<and> get_receiver_optimal_action ar sim posterior_belief = Inr (Some a)
           \<and> (\<forall>x\<in>set pre. spec_expected_utility ar sim posterior_belief x
                             < spec_expected_utility ar sim posterior_belief a)
           \<and> (\<forall>x\<in>set suf. spec_expected_utility ar sim posterior_belief x
                             \<le> spec_expected_utility ar sim posterior_belief a)"
proof -
  from assms(3) have d: "\<forall>w\<in>set (states sim). posterior_belief w \<noteq> None"
    by (simp add: list_all_iff)
  show ?thesis
    using assms(2) d assms(4) by (rule optimal_action_first_maximiser)
qed

text \<open>
  C8, as amended. With an empty action list the best-response selection raises nothing:
  it returns Python's \<open>None\<close>, the initial value of the selected action, for
  every belief.
\<close>

theorem best_response_no_actions:
  fixes ar :: "('f::linorder) arith"
  assumes "actions sim = []"
  shows "get_receiver_optimal_action ar sim posterior_belief = Inr None"
  using assms by (simp add: get_receiver_optimal_action_def)

section \<open>The evaluator computes the double sum\<close>

lemma best_response_spec:
  fixes ar :: "('f::linorder) arith"
  assumes "states_defined sim scheme" and "model_defined sim"
    and "selectable ar sim (spec_belief ar sim scheme m)"
  shows "\<exists>a. get_receiver_optimal_action ar sim (spec_belief ar sim scheme m) = Inr (Some a)
           \<and> best_response ar sim scheme m = Some a \<and> a \<in> set (actions sim)
           \<and> first_maximiser ar sim (spec_belief ar sim scheme m) a"
proof -
  let ?b = "spec_belief ar sim scheme m"
  have p: "calculate_posterior_belief ar sim m scheme = Inr (?b, spec_marginal ar sim scheme m)"
    using assms(1) by (rule calculate_posterior_belief_spec)
  from assms(2) have t: "table_defined (u_r sim) (actions sim) (states sim)"
    by (simp add: model_defined_def)
  from optimal_action_first_maximiser [OF t spec_belief_defined [OF assms(1)] assms(3)]
  obtain pre a suf where a: "actions sim = pre @ a # suf"
    "get_receiver_optimal_action ar sim ?b = Inr (Some a)"
    "\<forall>x\<in>set pre. spec_expected_utility ar sim ?b x < spec_expected_utility ar sim ?b a"
    "\<forall>x\<in>set suf. spec_expected_utility ar sim ?b x \<le> spec_expected_utility ar sim ?b a"
    by blast
  have "first_maximiser ar sim ?b a"
    unfolding first_maximiser_def using a(1,3,4) by blast
  moreover have "a \<in> set (actions sim)"
    using a(1) by simp
  moreover have "best_response ar sim scheme m = Some a"
    by (simp add: best_response_def p a(2))
  ultimately show ?thesis
    using a(2) by blast
qed

lemma optimal_action_for_signal_loop_eq:
  fixes ar :: "('f::linorder) arith"
  assumes "states_defined sim scheme" and "model_defined sim"
    and "responds ar sim scheme ms"
  shows "\<exists>pm'. optimal_action_for_signal_loop ar sim scheme ms cache pm =
           Inr (\<lambda>m. if m \<in> set ms then Some (best_response ar sim scheme m) else cache m, pm')"
  using assms(3)
proof (induction ms arbitrary: cache pm)
  case Nil
  then show ?case by simp
next
  case (Cons m ms)
  from Cons.prems have s: "selectable ar sim (spec_belief ar sim scheme m)"
    and rest: "responds ar sim scheme ms"
    by (simp_all add: responds_def)
  have p: "calculate_posterior_belief ar sim m scheme
             = Inr (spec_belief ar sim scheme m, spec_marginal ar sim scheme m)"
    using assms(1) by (rule calculate_posterior_belief_spec)
  from best_response_spec [OF assms(1,2) s]
  obtain a where g: "get_receiver_optimal_action ar sim (spec_belief ar sim scheme m) = Inr (Some a)"
    and b: "best_response ar sim scheme m = Some a"
    by blast
  from Cons.IH [OF rest, of "cache(m \<mapsto> Some a)" "pm(m \<mapsto> spec_marginal ar sim scheme m)"]
  obtain pm' where "optimal_action_for_signal_loop ar sim scheme ms (cache(m \<mapsto> Some a))
        (pm(m \<mapsto> spec_marginal ar sim scheme m))
      = Inr (\<lambda>x. if x \<in> set ms then Some (best_response ar sim scheme x)
                  else (cache(m \<mapsto> Some a)) x, pm')"
    by blast
  then have "optimal_action_for_signal_loop ar sim scheme (m # ms) cache pm =
      Inr (\<lambda>x. if x \<in> set (m # ms) then Some (best_response ar sim scheme x) else cache x, pm')"
    by (simp add: p g b fun_eq_iff)
  then show ?case by blast
qed

lemma utility_for_state_loop_eq:
  assumes "map_of scheme w \<noteq> None" and "w \<in> set (states sim)"
    and "table_defined (u_s sim) (actions sim) (states sim)"
    and "\<forall>m\<in>set ms. \<exists>a\<in>set (actions sim). cache m = Some (Some a)"
  shows "utility_for_state_loop ar sim scheme cache w ms acc =
           Inr (foldl (fadd ar) acc
                  (map (\<lambda>m. fmul ar (scheme_prob ar scheme w m)
                              (the (the (u_s sim (the (the (cache m)))) w))) ms))"
  using assms(4)
proof (induction ms arbitrary: acc)
  case Nil
  then show ?case by simp
next
  case (Cons m ms)
  from assms(1) obtain row where row: "map_of scheme w = Some row" by auto
  from Cons.prems obtain a where a: "a \<in> set (actions sim)" "cache m = Some (Some a)"
    by auto
  have l: "table_lookup (u_s sim) (Some a) w = Inr (the (the (u_s sim a) w))"
    using assms(3) a(1) assms(2) by (rule table_defined_lookup)
  from Cons.prems have r: "\<forall>m\<in>set ms. \<exists>a\<in>set (actions sim). cache m = Some (Some a)"
    by simp
  show ?case
    by (simp add: row a(2) l Cons.IH [OF r] scheme_prob_def del: table_lookup.simps)
qed

lemma total_expected_utility_loop_eq:
  assumes "states_defined sim scheme"
    and "table_defined (u_s sim) (actions sim) (states sim)"
    and "\<forall>m\<in>set ms. \<exists>a\<in>set (actions sim). cache m = Some (Some a)"
    and "set ws \<subseteq> set (states sim)"
  shows "total_expected_utility_loop ar sim scheme cache ms ws acc =
           Inr (foldl (fadd ar) acc
                  (map (\<lambda>w. fmul ar (the (prior sim w))
                         (fsum ar (map (\<lambda>m. fmul ar (scheme_prob ar scheme w m)
                                     (the (the (u_s sim (the (the (cache m)))) w))) ms))) ws))"
  using assms(4)
proof (induction ws arbitrary: acc)
  case Nil
  then show ?case by simp
next
  case (Cons w ws)
  from Cons.prems have w: "w \<in> set (states sim)" and sub: "set ws \<subseteq> set (states sim)"
    by auto
  from assms(1) w have row: "map_of scheme w \<noteq> None" and "prior sim w \<noteq> None"
    by (auto simp: states_defined_def list_all_iff)
  then obtain p where p: "prior sim w = Some p" by auto
  show ?case
    by (simp add: utility_for_state_loop_eq [OF row w assms(2,3)] p Cons.IH [OF sub] fsum_def)
qed

lemma calculate_sender_expected_utility_eq:
  fixes ar :: "('f::linorder) arith"
  assumes "states_defined sim scheme" and "model_defined sim"
    and "responds ar sim scheme signals"
  shows "calculate_sender_expected_utility ar sim scheme (\<lambda>S. signals)
           = Inr (spec_total ar sim scheme signals)"
proof -
  let ?cache = "\<lambda>m. if m \<in> set signals then Some (best_response ar sim scheme m) else None"
  from optimal_action_for_signal_loop_eq [OF assms, of Map.empty Map.empty]
  obtain pm' where c: "optimal_action_for_signal_loop ar sim scheme signals Map.empty Map.empty
      = Inr (?cache, pm')"
    by blast
  from assms(2) have t: "table_defined (u_s sim) (actions sim) (states sim)"
    by (simp add: model_defined_def)
  have k: "\<forall>m\<in>set signals. \<exists>a\<in>set (actions sim). ?cache m = Some (Some a)"
  proof
    fix m assume m: "m \<in> set signals"
    with assms(3) have "selectable ar sim (spec_belief ar sim scheme m)"
      by (simp add: responds_def list_all_iff)
    from best_response_spec [OF assms(1,2) this] m
    show "\<exists>a\<in>set (actions sim). ?cache m = Some (Some a)"
      by auto
  qed
  have "fsum ar (map (\<lambda>w. fmul ar (the (prior sim w))
                (fsum ar (map (\<lambda>m. fmul ar (scheme_prob ar scheme w m)
                            (the (the (u_s sim (the (the (?cache m)))) w)))
                          signals)))
              (states sim))
        = spec_total ar sim scheme signals"
    unfolding spec_total_def
    by (intro arg_cong [where f = "fsum ar"] map_cong refl arg_cong2 [where f = "fmul ar"]) simp
  then show ?thesis
    by (simp add: calculate_sender_expected_utility_def Let_def c
        total_expected_utility_loop_eq [OF assms(1) t k subset_refl] fsum_def)
qed

lemma rows_cover_states:
  assumes "set (states sim) \<subseteq> set (map fst scheme)" and "model_defined sim"
  shows "states_defined sim scheme"
proof -
  have "map_of scheme w \<noteq> None" if "w \<in> set (states sim)" for w
    using that assms(1) by (auto simp: map_of_eq_None_iff)
  moreover have "prior sim w \<noteq> None" if "w \<in> set (states sim)" for w
    using that assms(2) by (auto simp: model_defined_def list_all_iff)
  ultimately show ?thesis
    by (simp add: states_defined_def list_all_iff)
qed

lemma collect_signals_fold:
  "fold (\<lambda>(state, state_signals) signals. signals \<union> set (map fst state_signals)) scheme acc
     = acc \<union> (\<Union>(w, row)\<in>set scheme. fst ` set row)"
  by (induction scheme arbitrary: acc) auto

lemma collect_signals_eq:
  "collect_signals scheme = (\<Union>(w, row)\<in>set scheme. fst ` set row)"
  unfolding collect_signals_def collect_signals_fold by simp

lemma calculate_sender_expected_utility_order:
  "calculate_sender_expected_utility ar sim scheme iteration
     = calculate_sender_expected_utility ar sim scheme
         (\<lambda>signals. iteration (collect_signals scheme))"
  by (simp add: calculate_sender_expected_utility_def Let_def)

text \<open>
  C3. For a well-formed model, a scheme whose outer keys are exactly the model's states
  and any order in which the set of signals is enumerated, the evaluator's signal
  vocabulary is the union of the keys of all rows; every signal gets one best-response
  action, the earliest maximiser of the expected utility under that signal's belief (its
  posterior, or the prior when its marginal is zero); and the evaluator returns the sum
  over the states of the prior times the sum over the signals of
  \<open>scheme[\<omega>].get(m, 0)\<close> times the Sender's utility of the signal's action, each sum
  taken in the code's order. No computed expected utility may be \<open>-float('inf')\<close>.
\<close>

theorem sender_expected_utility_double_sum:
  fixes ar :: "('f::linorder) arith"
  assumes "set (map fst scheme) = set (states sim)" and "model_defined sim"
    and "signal_order scheme (iteration (collect_signals scheme))"
    and "responds ar sim scheme (iteration (collect_signals scheme))"
  shows "calculate_sender_expected_utility ar sim scheme iteration
           = Inr (spec_total ar sim scheme (iteration (collect_signals scheme)))
         \<and> collect_signals scheme = (\<Union>(w, row)\<in>set scheme. fst ` set row)
         \<and> (\<forall>m\<in>collect_signals scheme.
               \<exists>a. calculate_posterior_belief ar sim m scheme
                      = Inr (spec_belief ar sim scheme m, spec_marginal ar sim scheme m)
                 \<and> get_receiver_optimal_action ar sim (spec_belief ar sim scheme m)
                      = Inr (Some a)
                 \<and> best_response ar sim scheme m = Some a
                 \<and> first_maximiser ar sim (spec_belief ar sim scheme m) a)"
proof -
  let ?signals = "iteration (collect_signals scheme)"
  from assms(1,2) have d: "states_defined sim scheme"
    by (intro rows_cover_states) simp_all
  have "calculate_sender_expected_utility ar sim scheme (\<lambda>S. ?signals)
             = Inr (spec_total ar sim scheme ?signals)"
    using d assms(2,4) by (rule calculate_sender_expected_utility_eq)
  then have 1: "calculate_sender_expected_utility ar sim scheme iteration
             = Inr (spec_total ar sim scheme ?signals)"
    by (simp add: calculate_sender_expected_utility_order [of ar sim scheme iteration])
  have 2: "collect_signals scheme = (\<Union>(w, row)\<in>set scheme. fst ` set row)"
    by (rule collect_signals_eq)
  from assms(3) have e: "set ?signals = collect_signals scheme"
    by (simp add: signal_order_def)
  have 4: "\<forall>m\<in>collect_signals scheme.
               \<exists>a. calculate_posterior_belief ar sim m scheme
                      = Inr (spec_belief ar sim scheme m, spec_marginal ar sim scheme m)
                 \<and> get_receiver_optimal_action ar sim (spec_belief ar sim scheme m)
                      = Inr (Some a)
                 \<and> best_response ar sim scheme m = Some a
                 \<and> first_maximiser ar sim (spec_belief ar sim scheme m) a"
  proof
    fix m assume "m \<in> collect_signals scheme"
    with e have "m \<in> set ?signals" by simp
    with assms(4) have s: "selectable ar sim (spec_belief ar sim scheme m)"
      by (simp add: responds_def list_all_iff)
    from best_response_spec [OF d assms(2) s] calculate_posterior_belief_spec [OF d, of ar m]
    show "\<exists>a. calculate_posterior_belief ar sim m scheme
                      = Inr (spec_belief ar sim scheme m, spec_marginal ar sim scheme m)
                 \<and> get_receiver_optimal_action ar sim (spec_belief ar sim scheme m)
                      = Inr (Some a)
                 \<and> best_response ar sim scheme m = Some a
                 \<and> first_maximiser ar sim (spec_belief ar sim scheme m) a"
      by blast
  qed
  from 1 2 4 show ?thesis by blast
qed

section \<open>Schemes whose keys differ from the states\<close>

lemma prob_signal_loop_missing_row:
  assumes "\<exists>w\<in>set ws. map_of scheme w = None"
  shows "prob_signal_loop ar sim m scheme ws acc = Inl KeyError"
  using assms
  by (induction ws arbitrary: acc) (auto split: option.splits)

text \<open>
  C6, as amended. The evaluator does not compare the scheme's keys with the model's
  states. When some state of the model has no row in the scheme and the scheme lists at
  least one signal, the evaluation fails with the \<open>KeyError\<close> of the first
  subscript that misses, and returns no number, whatever the arithmetic and the order of
  the signals.
\<close>

theorem missing_state_key_error:
  fixes ar :: "('f::linorder) arith"
  assumes "\<not> set (states sim) \<subseteq> set (map fst scheme)"
    and "signal_order scheme (iteration (collect_signals scheme))"
    and "collect_signals scheme \<noteq> {}"
  shows "calculate_sender_expected_utility ar sim scheme iteration = Inl KeyError"
proof -
  from assms(1) obtain w where "w \<in> set (states sim)" "map_of scheme w = None"
    by (auto simp: map_of_eq_None_iff)
  then have "prob_signal_loop ar sim m scheme (states sim) (fzero ar) = Inl KeyError" for m
    by (intro prob_signal_loop_missing_row) blast
  then have p: "calculate_posterior_belief ar sim m scheme = Inl KeyError" for m
    by (simp add: calculate_posterior_belief_def)
  from assms(2,3) have "iteration (collect_signals scheme) \<noteq> []"
    by (auto simp: signal_order_def)
  then obtain m ms where "iteration (collect_signals scheme) = m # ms"
    by (cases "iteration (collect_signals scheme)") auto
  then show ?thesis
    by (simp add: calculate_sender_expected_utility_def Let_def p)
qed

















section \<open>The pooling scheme and the prior\<close>

lemma map_of_no_revelation_fold:
  "map_of (fold (\<lambda>state scheme. AList.update state v scheme) sts acc) w =
     (if w \<in> set sts then Some v else map_of acc w)"
  by (induction sts arbitrary: acc) (auto simp: update_conv')

lemma map_of_no_revelation:
  "w \<in> set sts \<Longrightarrow> map_of (get_no_revelation_scheme ar sts) w = Some [(''NoSignal'', fone ar)]"
  by (simp add: get_no_revelation_scheme_def map_of_no_revelation_fold)

lemma scheme_prob_no_revelation:
  "w \<in> set sts \<Longrightarrow> scheme_prob ar (get_no_revelation_scheme ar sts) w ''NoSignal'' = fone ar"
  by (simp add: scheme_prob_def map_of_no_revelation get_default_def)

lemma states_defined_no_revelation:
  assumes "\<forall>w\<in>set (states sim). prior sim w \<noteq> None"
  shows "states_defined sim (get_no_revelation_scheme ar (states sim))"
  using assms by (simp add: states_defined_def list_all_iff map_of_no_revelation)

lemma spec_marginal_no_revelation:
  assumes "one_laws ar sim"
  shows "spec_marginal ar sim (get_no_revelation_scheme ar (states sim)) ''NoSignal''
           = fsum ar (map (\<lambda>w. the (prior sim w)) (states sim))"
  unfolding spec_marginal_def
  using assms
  by (intro arg_cong [where f = "fsum ar"] map_cong refl)
    (simp add: scheme_prob_no_revelation one_laws_def list_all_iff)

text \<open>
  C9, as amended. For a model whose prior masses, added in the order of the state list as
  the code adds them, give exactly 1.0, the posterior computed for the pooling signal of
  the no-revelation scheme has marginal 1.0 and gives every state exactly its prior mass.
  This needs that 1.0 times a mass and a mass divided by 1.0 are the mass itself.
\<close>

theorem no_revelation_posterior:
  assumes "list_all (\<lambda>w. prior sim w \<noteq> None) (states sim)" and "one_laws ar sim"
    and "fsum ar (map (\<lambda>w. the (prior sim w)) (states sim)) = fone ar"
  shows "\<exists>belief. calculate_posterior_belief ar sim ''NoSignal''
                     (get_no_revelation_scheme ar (states sim)) = Inr (belief, fone ar)
           \<and> (\<forall>w\<in>set (states sim). belief w = prior sim w)"
proof -
  let ?sch = "get_no_revelation_scheme ar (states sim)"
  from assms(1) have pd: "\<forall>w\<in>set (states sim). prior sim w \<noteq> None"
    by (simp add: list_all_iff)
  have d: "states_defined sim ?sch"
    using pd by (rule states_defined_no_revelation)
  have m: "spec_marginal ar sim ?sch ''NoSignal'' = fone ar"
    by (simp add: spec_marginal_no_revelation [OF assms(2)] assms(3))
  show ?thesis
  proof (cases "fone ar = fzero ar")
    case True
    then show ?thesis
      by (simp add: calculate_posterior_belief_eq [OF d] m)
  next
    case False
    then have c: "calculate_posterior_belief ar sim ''NoSignal'' ?sch
             = Inr (spec_posterior ar sim ?sch ''NoSignal'', fone ar)"
      by (simp add: calculate_posterior_belief_eq [OF d] m)
    have "spec_posterior ar sim ?sch ''NoSignal'' w = prior sim w"
      if "w \<in> set (states sim)" for w
      using that pd assms(2)
      by (auto simp: spec_posterior_def m scheme_prob_no_revelation one_laws_def list_all_iff)
    with c show ?thesis by blast
  qed
qed

section \<open>The binary scenario, evaluated\<close>

lemmas evaluate =
  calculate_sender_expected_utility_def Let_def calculate_posterior_belief_def
  get_receiver_optimal_action_def get_default_def scenario_2_def

lemmas evaluate64 = evaluate double_def round53_def round_half_even_def

lemma distinct_singleton:
  assumes "distinct xs" and "set xs = {a}"
  shows "xs = [a]"
proof (cases xs)
  case Nil
  with assms(2) show ?thesis by simp
next
  case (Cons y ys)
  with assms have "y = a" "set ys \<subseteq> {a}" "y \<notin> set ys" by auto
  then have "ys = []" by (cases ys) auto
  with Cons \<open>y = a\<close> show ?thesis by simp
qed

lemma distinct_doubleton:
  assumes "distinct xs" and "set xs = {a, b}" and "a \<noteq> b"
  shows "xs = [a, b] \<or> xs = [b, a]"
proof (cases xs)
  case Nil
  with assms(2) show ?thesis by simp
next
  case (Cons y ys)
  with assms(1) have d: "distinct ys" "y \<notin> set ys" by auto
  from Cons assms(2) have y: "y = a \<or> y = b" by auto
  then show ?thesis
  proof
    assume "y = a"
    with Cons assms(2,3) d have "set ys = {b}" by auto
    with d(1) have "ys = [b]" by (rule distinct_singleton)
    with Cons \<open>y = a\<close> show ?thesis by simp
  next
    assume "y = b"
    with Cons assms(2,3) d have "set ys = {a}" by auto
    with d(1) have "ys = [a]" by (rule distinct_singleton)
    with Cons \<open>y = b\<close> show ?thesis by simp
  qed
qed

lemma no_revelation_scenario_2:
  "get_no_revelation_scheme ar (states scenario_2) =
     [(''Good'', [(''NoSignal'', fone ar)]), (''Bad'', [(''NoSignal'', fone ar)])]"
  by (simp add: get_no_revelation_scheme_def scenario_2_def)

lemma full_revelation_scenario_2:
  "get_full_revelation_scheme ar (states scenario_2) =
     [(''Good'', [(''Good'', fone ar), (''Bad'', fzero ar)]),
      (''Bad'', [(''Good'', fzero ar), (''Bad'', fone ar)])]"
  by (simp add: get_full_revelation_scheme_def scenario_2_def)

lemma no_revelation_order:
  assumes "signal_order (get_no_revelation_scheme ar (states scenario_2)) signals"
  shows "signals = [''NoSignal'']"
  using assms unfolding no_revelation_scenario_2
  by (auto simp: signal_order_def collect_signals_def dest: distinct_singleton)

lemma full_revelation_order:
  assumes "signal_order (get_full_revelation_scheme ar (states scenario_2)) signals"
  shows "signals = [''Good'', ''Bad''] \<or> signals = [''Bad'', ''Good'']"
proof -
  from assms have "distinct signals" "set signals = {''Good'', ''Bad''}"
    unfolding full_revelation_scenario_2 by (auto simp: signal_order_def collect_signals_def)
  then show ?thesis
    by (rule distinct_doubleton) simp
qed

lemma collect_signals_baselines:
  "collect_signals (get_no_revelation_scheme ar (states scenario_2)) = {''NoSignal''}"
  "collect_signals (get_full_revelation_scheme ar (states scenario_2)) = {''Good'', ''Bad''}"
  unfolding no_revelation_scenario_2 full_revelation_scenario_2
  by (auto simp: collect_signals_def)

lemma no_revelation_value_exact:
  "calculate_sender_expected_utility exact scenario_2
     (get_no_revelation_scheme exact (states scenario_2)) (\<lambda>signals. [''NoSignal'']) = Inr (Real 1)"
  unfolding no_revelation_scenario_2 by (simp add: evaluate)

lemma no_revelation_value_binary64:
  "calculate_sender_expected_utility binary64 scenario_2
     (get_no_revelation_scheme binary64 (states scenario_2)) (\<lambda>signals. [''NoSignal'']) = Inr (Real 1)"
  unfolding no_revelation_scenario_2 by (simp add: evaluate64)

lemma full_revelation_value_exact:
  "calculate_sender_expected_utility exact scenario_2
     (get_full_revelation_scheme exact (states scenario_2)) (\<lambda>signals. [''Good'', ''Bad'']) = Inr (Real (1 / 2))"
  "calculate_sender_expected_utility exact scenario_2
     (get_full_revelation_scheme exact (states scenario_2)) (\<lambda>signals. [''Bad'', ''Good'']) = Inr (Real (1 / 2))"
  unfolding full_revelation_scenario_2 by (simp_all add: evaluate)

lemma full_revelation_value_binary64:
  "calculate_sender_expected_utility binary64 scenario_2
     (get_full_revelation_scheme binary64 (states scenario_2)) (\<lambda>signals. [''Good'', ''Bad''])
     = Inr (Real (1 / 2))"
  "calculate_sender_expected_utility binary64 scenario_2
     (get_full_revelation_scheme binary64 (states scenario_2)) (\<lambda>signals. [''Bad'', ''Good''])
     = Inr (Real (1 / 2))"
  unfolding full_revelation_scenario_2 by (simp_all add: evaluate64)

text \<open>
  C5. On the binary scenario (states Good and Bad, actions Accept and Reject, prior one
  half each, the Sender paid 1 for Accept and 0 for Reject, the Receiver paid 1 for
  accepting Good, -1 for accepting Bad and 0 for rejecting), the evaluator returns 1.0 on
  the no-revelation scheme and 0.5 on the full-revelation scheme, in binary64 arithmetic
  as in exact arithmetic and in whatever order the signals are enumerated.
\<close>

theorem binary_scenario_baselines:
  assumes "signal_order (get_no_revelation_scheme binary64 (states scenario_2))
             (iteration (collect_signals (get_no_revelation_scheme binary64 (states scenario_2))))"
    and "signal_order (get_full_revelation_scheme binary64 (states scenario_2))
           (iteration (collect_signals (get_full_revelation_scheme binary64 (states scenario_2))))"
  shows "calculate_sender_expected_utility binary64 scenario_2
           (get_no_revelation_scheme binary64 (states scenario_2)) iteration = Inr (Real 1)
         \<and> calculate_sender_expected_utility binary64 scenario_2
           (get_full_revelation_scheme binary64 (states scenario_2)) iteration
             = Inr (Real (1 / 2))
         \<and> calculate_sender_expected_utility exact scenario_2
           (get_no_revelation_scheme exact (states scenario_2)) iteration = Inr (Real 1)
         \<and> calculate_sender_expected_utility exact scenario_2
           (get_full_revelation_scheme exact (states scenario_2)) iteration
             = Inr (Real (1 / 2))"
proof -
  have sn: "iteration {''NoSignal''} = [''NoSignal'']"
    using no_revelation_order [OF assms(1)] by (simp add: collect_signals_baselines)
  have sf: "iteration {''Good'', ''Bad''} = [''Good'', ''Bad'']
      \<or> iteration {''Good'', ''Bad''} = [''Bad'', ''Good'']"
    using full_revelation_order [OF assms(2)] by (simp add: collect_signals_baselines)
  have n: "calculate_sender_expected_utility ar scenario_2
        (get_no_revelation_scheme ar (states scenario_2)) iteration
      = calculate_sender_expected_utility ar scenario_2
        (get_no_revelation_scheme ar (states scenario_2)) (\<lambda>signals. [''NoSignal''])" for ar
    by (simp add: calculate_sender_expected_utility_order
        [of ar scenario_2 "get_no_revelation_scheme ar (states scenario_2)" iteration]
        collect_signals_baselines sn)
  from sf show ?thesis
  proof
    assume o: "iteration {''Good'', ''Bad''} = [''Good'', ''Bad'']"
    have f: "calculate_sender_expected_utility ar scenario_2
        (get_full_revelation_scheme ar (states scenario_2)) iteration
      = calculate_sender_expected_utility ar scenario_2
        (get_full_revelation_scheme ar (states scenario_2)) (\<lambda>signals. [''Good'', ''Bad''])" for ar
      by (simp add: calculate_sender_expected_utility_order
          [of ar scenario_2 "get_full_revelation_scheme ar (states scenario_2)" iteration]
          collect_signals_baselines o)
    show ?thesis
      by (simp add: n f no_revelation_value_exact no_revelation_value_binary64
          full_revelation_value_exact full_revelation_value_binary64)
  next
    assume o: "iteration {''Good'', ''Bad''} = [''Bad'', ''Good'']"
    have f: "calculate_sender_expected_utility ar scenario_2
        (get_full_revelation_scheme ar (states scenario_2)) iteration
      = calculate_sender_expected_utility ar scenario_2
        (get_full_revelation_scheme ar (states scenario_2)) (\<lambda>signals. [''Bad'', ''Good''])" for ar
      by (simp add: calculate_sender_expected_utility_order
          [of ar scenario_2 "get_full_revelation_scheme ar (states scenario_2)" iteration]
          collect_signals_baselines o)
    show ?thesis
      by (simp add: n f no_revelation_value_exact no_revelation_value_binary64
          full_revelation_value_exact full_revelation_value_binary64)
  qed
qed

theorem binary_scenario_baselines_witness:
  "signal_order (get_no_revelation_scheme binary64 (states scenario_2)) [''NoSignal'']
   \<and> signal_order (get_full_revelation_scheme binary64 (states scenario_2)) [''Bad'', ''Good'']
   \<and> calculate_sender_expected_utility binary64 scenario_2
        (get_no_revelation_scheme binary64 (states scenario_2))
        (\<lambda>signals. if signals = {''NoSignal''} then [''NoSignal''] else [''Bad'', ''Good''])
       = Inr (Real 1)
   \<and> calculate_sender_expected_utility binary64 scenario_2
        (get_full_revelation_scheme binary64 (states scenario_2))
        (\<lambda>signals. if signals = {''NoSignal''} then [''NoSignal''] else [''Bad'', ''Good''])
       = Inr (Real (1 / 2))"
proof -
  let ?it = "\<lambda>signals. if signals = {''NoSignal''} then [''NoSignal''] else [''Bad'', ''Good'']"
  have ne: "{''Good'', ''Bad''} \<noteq> {''NoSignal''}"
    by auto
  have h1: "signal_order (get_no_revelation_scheme binary64 (states scenario_2)) [''NoSignal'']"
    unfolding no_revelation_scenario_2 by (auto simp: signal_order_def collect_signals_def)
  have h2: "signal_order (get_full_revelation_scheme binary64 (states scenario_2))
              [''Bad'', ''Good'']"
    unfolding full_revelation_scenario_2 by (auto simp: signal_order_def collect_signals_def)
  have a1: "signal_order (get_no_revelation_scheme binary64 (states scenario_2))
      (?it (collect_signals (get_no_revelation_scheme binary64 (states scenario_2))))"
    using h1 by (simp add: collect_signals_baselines)
  have a2: "signal_order (get_full_revelation_scheme binary64 (states scenario_2))
      (?it (collect_signals (get_full_revelation_scheme binary64 (states scenario_2))))"
    using h2 ne by (simp add: collect_signals_baselines)
  show ?thesis
    using binary_scenario_baselines [of ?it, OF a1 a2] h1 h2 by simp
qed

section \<open>The theorems at concrete inputs\<close>

lemmas spec_evaluate =
  spec_belief_def spec_marginal_def spec_posterior_def scheme_prob_def
  spec_expected_utility_def selectable_def responds_def fsum_def

theorem posterior_bayes_witness:
  "states_defined scenario_2 (get_full_revelation_scheme binary64 (states scenario_2))
   \<and> spec_marginal binary64 scenario_2 (get_full_revelation_scheme binary64 (states scenario_2))
        ''Good'' = Real (1 / 2)
   \<and> Real (1 / 2) \<noteq> fzero binary64
   \<and> calculate_posterior_belief binary64 scenario_2 ''Good''
        (get_full_revelation_scheme binary64 (states scenario_2))
       = Inr (spec_posterior binary64 scenario_2
                (get_full_revelation_scheme binary64 (states scenario_2)) ''Good'', Real (1 / 2))
   \<and> spec_posterior binary64 scenario_2 (get_full_revelation_scheme binary64 (states scenario_2))
        ''Good'' ''Good'' = Some (Real 1)
   \<and> spec_posterior binary64 scenario_2 (get_full_revelation_scheme binary64 (states scenario_2))
        ''Good'' ''Bad'' = Some (Real 0)"
proof -
  let ?sch = "get_full_revelation_scheme binary64 (states scenario_2)"
  have d: "states_defined scenario_2 ?sch"
    unfolding full_revelation_scenario_2
    by (simp add: states_defined_def scenario_2_def del: not_None_eq)
  have m: "spec_marginal binary64 scenario_2 ?sch ''Good'' = Real (1 / 2)"
    unfolding full_revelation_scenario_2
    by (simp add: spec_evaluate evaluate64)
  have n: "spec_marginal binary64 scenario_2 ?sch ''Good'' \<noteq> fzero binary64"
    by (simp add: m)
  have p: "spec_posterior binary64 scenario_2 ?sch ''Good'' ''Good'' = Some (Real 1)"
    "spec_posterior binary64 scenario_2 ?sch ''Good'' ''Bad'' = Some (Real 0)"
    unfolding spec_posterior_def m unfolding full_revelation_scenario_2
    by (simp_all add: scheme_prob_def evaluate64)
  show ?thesis
    using posterior_bayes [OF d n] d m p by simp
qed

theorem posterior_unreachable_witness:
  "states_defined scenario_2 scheme_unreachable
   \<and> spec_marginal binary64 scenario_2 scheme_unreachable ''Never'' = fzero binary64
   \<and> calculate_posterior_belief binary64 scenario_2 ''Never'' scheme_unreachable
       = Inr (prior scenario_2, Real 0)"
proof -
  have d: "states_defined scenario_2 scheme_unreachable"
    by (simp add: states_defined_def scenario_2_def scheme_unreachable_def del: not_None_eq)
  have m: "spec_marginal binary64 scenario_2 scheme_unreachable ''Never'' = fzero binary64"
    by (simp add: spec_evaluate evaluate64 scheme_unreachable_def)
  show ?thesis
    using posterior_unreachable [OF d m] d m by simp
qed

lemma rounding_tie_utilities:
  "spec_expected_utility binary64 rounding_tie (prior rounding_tie) ''Reject'' = Real 0"
  "spec_expected_utility binary64 rounding_tie (prior rounding_tie) ''Accept'' = Real 0"
  "spec_expected_utility exact rounding_tie (prior rounding_tie) ''Accept'' = Real (1 / 2)"
  by (simp_all add: spec_evaluate rounding_tie_def round53_def round_half_even_def)

theorem best_response_first_maximiser_witness:
  "actions rounding_tie \<noteq> []
   \<and> table_defined (u_r rounding_tie) (actions rounding_tie) (states rounding_tie)
   \<and> list_all (\<lambda>w. prior rounding_tie w \<noteq> None) (states rounding_tie)
   \<and> selectable binary64 rounding_tie (prior rounding_tie)
   \<and> spec_expected_utility binary64 rounding_tie (prior rounding_tie) ''Reject'' = Real 0
   \<and> spec_expected_utility binary64 rounding_tie (prior rounding_tie) ''Accept'' = Real 0
   \<and> get_receiver_optimal_action binary64 rounding_tie (prior rounding_tie)
       = Inr (Some ''Reject'')
   \<and> (\<exists>pre a suf. actions rounding_tie = pre @ a # suf
           \<and> get_receiver_optimal_action binary64 rounding_tie (prior rounding_tie)
               = Inr (Some a)
           \<and> (\<forall>x\<in>set pre. spec_expected_utility binary64 rounding_tie (prior rounding_tie) x
                             < spec_expected_utility binary64 rounding_tie (prior rounding_tie) a)
           \<and> (\<forall>x\<in>set suf. spec_expected_utility binary64 rounding_tie (prior rounding_tie) x
                             \<le> spec_expected_utility binary64 rounding_tie (prior rounding_tie) a))"
proof -
  have h1: "actions rounding_tie \<noteq> []"
    by (simp add: rounding_tie_def)
  have h2: "table_defined (u_r rounding_tie) (actions rounding_tie) (states rounding_tie)"
    by (simp add: table_defined_def rounding_tie_def del: not_None_eq)
  have h3: "list_all (\<lambda>w. prior rounding_tie w \<noteq> None) (states rounding_tie)"
    by (simp add: rounding_tie_def del: not_None_eq)
  have a: "actions rounding_tie = [''Reject'', ''Accept'']"
    by (simp add: rounding_tie_def)
  have h4: "selectable binary64 rounding_tie (prior rounding_tie)"
    unfolding selectable_def a by (simp add: rounding_tie_utilities)
  have g: "get_receiver_optimal_action binary64 rounding_tie (prior rounding_tie)
             = Inr (Some ''Reject'')"
    by (simp add: get_receiver_optimal_action_def rounding_tie_def round53_def
        round_half_even_def)
  show ?thesis
    using best_response_first_maximiser [OF h1 h2 h3 h4] h1 h2 h3 h4 g
      rounding_tie_utilities(1,2)
    by blast
qed

theorem best_response_no_actions_counterexample:
  "actions scenario_2_no_actions = []
   \<and> get_receiver_optimal_action binary64 scenario_2_no_actions (prior scenario_2_no_actions)
       = Inr None"
  by (simp add: get_receiver_optimal_action_def scenario_2_no_actions_def scenario_2_def)

theorem best_response_no_actions_witness:
  "actions scenario_2_no_actions = []
   \<and> get_receiver_optimal_action binary64 scenario_2_no_actions Map.empty = Inr None"
proof -
  have h: "actions scenario_2_no_actions = []"
    by (simp add: scenario_2_no_actions_def)
  show ?thesis
    using best_response_no_actions [OF h] h by simp
qed

lemma near_tie_value:
  "calculate_sender_expected_utility binary64 scenario_1 scheme_near_tie
     (\<lambda>signals. [''A'', ''B'']) = Inr (Real 0)"
  by (simp add: calculate_sender_expected_utility_def Let_def calculate_posterior_belief_def
      get_receiver_optimal_action_def get_default_def scenario_1_def scheme_near_tie_def
      double_def round53_def round_half_even_def)

lemma near_tie_responses:
  "best_response binary64 scenario_1 scheme_near_tie ''A'' = Some ''Dont Buy''"
  "best_response binary64 scenario_1 scheme_near_tie ''B'' = Some ''Dont Buy''"
  by (simp_all add: best_response_def calculate_posterior_belief_def
      get_receiver_optimal_action_def get_default_def scenario_1_def scheme_near_tie_def
      double_def round53_def round_half_even_def)

lemma near_tie_utility:
  "spec_expected_utility binary64 scenario_1
     (spec_belief binary64 scenario_1 scheme_near_tie ''A'') ''Buy''
     = Real (- 1 / 9007199254740992)"
  "spec_expected_utility binary64 scenario_1
     (spec_belief binary64 scenario_1 scheme_near_tie ''A'') ''Dont Buy'' = Real 0"
  "spec_expected_utility binary64 scenario_1
     (spec_belief binary64 scenario_1 scheme_near_tie ''B'') ''Dont Buy'' = Real 0"
  by (simp_all add: spec_evaluate get_default_def scenario_1_def scheme_near_tie_def
      double_def round53_def round_half_even_def)

theorem sender_expected_utility_double_sum_witness:
  "set (map fst scheme_near_tie) = set (states scenario_1)
   \<and> model_defined scenario_1
   \<and> signal_order scheme_near_tie [''A'', ''B'']
   \<and> responds binary64 scenario_1 scheme_near_tie [''A'', ''B'']
   \<and> collect_signals scheme_near_tie = {''A'', ''B''}
   \<and> calculate_sender_expected_utility binary64 scenario_1 scheme_near_tie
        (\<lambda>signals. [''A'', ''B''])
       = Inr (spec_total binary64 scenario_1 scheme_near_tie [''A'', ''B''])
   \<and> spec_total binary64 scenario_1 scheme_near_tie [''A'', ''B''] = Real 0
   \<and> spec_expected_utility binary64 scenario_1
        (spec_belief binary64 scenario_1 scheme_near_tie ''A'') ''Buy''
       = Real (- 1 / 9007199254740992)
   \<and> best_response binary64 scenario_1 scheme_near_tie ''A'' = Some ''Dont Buy''
   \<and> first_maximiser binary64 scenario_1
        (spec_belief binary64 scenario_1 scheme_near_tie ''A'') ''Dont Buy''"
proof -
  have h1: "set (map fst scheme_near_tie) = set (states scenario_1)"
    by (simp add: scheme_near_tie_def scenario_1_def)
  have h2: "model_defined scenario_1"
    by (simp add: model_defined_def table_defined_def scenario_1_def del: not_None_eq)
  have h3: "signal_order scheme_near_tie [''A'', ''B'']"
    by (auto simp: signal_order_def collect_signals_def scheme_near_tie_def)
  have a: "actions scenario_1 = [''Buy'', ''Dont Buy'']"
    by (simp add: scenario_1_def)
  have h4: "responds binary64 scenario_1 scheme_near_tie [''A'', ''B'']"
    unfolding responds_def selectable_def a by (simp add: near_tie_utility)
  have cs: "collect_signals scheme_near_tie = {''A'', ''B''}"
    by (auto simp: collect_signals_def scheme_near_tie_def)
  note t = sender_expected_utility_double_sum
    [where iteration = "\<lambda>signals. [''A'', ''B'']" and ar = binary64, OF h1 h2 h3 h4]
  from t have c: "calculate_sender_expected_utility binary64 scenario_1 scheme_near_tie
      (\<lambda>signals. [''A'', ''B'']) = Inr (spec_total binary64 scenario_1 scheme_near_tie [''A'', ''B''])"
    by blast
  then have v: "spec_total binary64 scenario_1 scheme_near_tie [''A'', ''B''] = Real 0"
    by (simp add: near_tie_value)
  from t cs have "\<exists>a. best_response binary64 scenario_1 scheme_near_tie ''A'' = Some a
      \<and> first_maximiser binary64 scenario_1
           (spec_belief binary64 scenario_1 scheme_near_tie ''A'') a"
    by auto
  then have f: "first_maximiser binary64 scenario_1
        (spec_belief binary64 scenario_1 scheme_near_tie ''A'') ''Dont Buy''"
    by (simp add: near_tie_responses)
  show ?thesis
    using h1 h2 h3 h4 cs c v f near_tie_utility(1) near_tie_responses(1) by simp
qed

theorem missing_state_key_error_witness:
  "\<not> set (states scenario_2) \<subseteq> set (map fst scheme_missing_state)
   \<and> signal_order scheme_missing_state [''NoSignal'']
   \<and> collect_signals scheme_missing_state \<noteq> {}
   \<and> calculate_sender_expected_utility binary64 scenario_2 scheme_missing_state
        (\<lambda>signals. [''NoSignal'']) = Inl KeyError"
proof -
  have h1: "\<not> set (states scenario_2) \<subseteq> set (map fst scheme_missing_state)"
    by (simp add: scenario_2_def scheme_missing_state_def)
  have h2: "signal_order scheme_missing_state [''NoSignal'']"
    by (simp add: signal_order_def collect_signals_def scheme_missing_state_def)
  have h3: "collect_signals scheme_missing_state \<noteq> {}"
    by (simp add: collect_signals_def scheme_missing_state_def)
  show ?thesis
    using missing_state_key_error
      [where iteration = "\<lambda>signals. [''NoSignal'']" and ar = binary64, OF h1 h2 h3]
      h1 h2 h3
    by simp
qed

theorem extra_state_counterexample:
  "set (map fst scheme_extra_state) \<noteq> set (states scenario_2)
   \<and> signal_order scheme_extra_state [''NoSignal'', ''Alarm'']
   \<and> calculate_sender_expected_utility binary64 scenario_2 scheme_extra_state
        (\<lambda>signals. [''NoSignal'', ''Alarm'']) = Inr (Real 1)
   \<and> signal_order scheme_extra_state [''Alarm'', ''NoSignal'']
   \<and> calculate_sender_expected_utility binary64 scenario_2 scheme_extra_state
        (\<lambda>signals. [''Alarm'', ''NoSignal'']) = Inr (Real 1)"
proof (intro conjI)
  have "''Ugly'' \<in> set (map fst scheme_extra_state)"
    by (simp add: scheme_extra_state_def)
  moreover have "''Ugly'' \<notin> set (states scenario_2)"
    by (simp add: scenario_2_def)
  ultimately show "set (map fst scheme_extra_state) \<noteq> set (states scenario_2)"
    by metis
  show "signal_order scheme_extra_state [''NoSignal'', ''Alarm'']"
    "signal_order scheme_extra_state [''Alarm'', ''NoSignal'']"
    by (auto simp: signal_order_def collect_signals_def scheme_extra_state_def)
  show "calculate_sender_expected_utility binary64 scenario_2 scheme_extra_state
        (\<lambda>signals. [''NoSignal'', ''Alarm'']) = Inr (Real 1)"
    "calculate_sender_expected_utility binary64 scenario_2 scheme_extra_state
        (\<lambda>signals. [''Alarm'', ''NoSignal'']) = Inr (Real 1)"
    by (simp_all add: evaluate64 scheme_extra_state_def)
qed

theorem no_revelation_posterior_witness:
  "list_all (\<lambda>w. prior scenario_2 w \<noteq> None) (states scenario_2)
   \<and> one_laws binary64 scenario_2
   \<and> fsum binary64 (map (\<lambda>w. the (prior scenario_2 w)) (states scenario_2)) = fone binary64
   \<and> (\<exists>belief. calculate_posterior_belief binary64 scenario_2 ''NoSignal''
                    (get_no_revelation_scheme binary64 (states scenario_2))
                  = Inr (belief, fone binary64)
           \<and> (\<forall>w\<in>set (states scenario_2). belief w = prior scenario_2 w))"
proof -
  have h1: "list_all (\<lambda>w. prior scenario_2 w \<noteq> None) (states scenario_2)"
    by (simp add: scenario_2_def del: not_None_eq)
  have h2: "one_laws binary64 scenario_2"
    by (simp add: one_laws_def scenario_2_def)
  have h3: "fsum binary64 (map (\<lambda>w. the (prior scenario_2 w)) (states scenario_2))
              = fone binary64"
    by (simp add: fsum_def scenario_2_def)
  show ?thesis
    using no_revelation_posterior [OF h1 h2 h3] h1 h2 h3 by blast
qed

lemma no_revelation_scenario_2_skewed:
  "get_no_revelation_scheme ar (states scenario_2_skewed) =
     [(''Good'', [(''NoSignal'', fone ar)]), (''Bad'', [(''NoSignal'', fone ar)])]"
  by (simp add: get_no_revelation_scheme_def scenario_2_skewed_def scenario_2_def)

text \<open>
  A prior of two doubles that is valid within the tolerance and sums to \<open>1 - 2^-30\<close>:
  the posterior of the pooling signal is the prior divided by that sum and rounded, which
  differs from the prior in both states.
\<close>

theorem no_revelation_posterior_counterexample:
  "spec_valid_prior scenario_2_skewed
   \<and> calculate_posterior_belief binary64 scenario_2_skewed ''NoSignal''
        (get_no_revelation_scheme binary64 (states scenario_2_skewed))
       = Inr ([''Good'' \<mapsto> Real (1073741825 / 2147483648),
               ''Bad'' \<mapsto> Real (1073741823 / 2147483648)],
              Real (1073741823 / 1073741824))
   \<and> prior scenario_2_skewed ''Good'' = Some (Real (1 / 2))
   \<and> Real (1073741825 / 2147483648) \<noteq> Real (1 / 2)"
proof (intro conjI)
  show "spec_valid_prior scenario_2_skewed"
    by (simp add: spec_valid_prior_def fsum_def scenario_2_skewed_def scenario_2_def)
  show "calculate_posterior_belief binary64 scenario_2_skewed ''NoSignal''
        (get_no_revelation_scheme binary64 (states scenario_2_skewed))
       = Inr ([''Good'' \<mapsto> Real (1073741825 / 2147483648),
               ''Bad'' \<mapsto> Real (1073741823 / 2147483648)],
              Real (1073741823 / 1073741824))"
    unfolding no_revelation_scenario_2_skewed
    by (simp add: calculate_posterior_belief_def get_default_def scenario_2_skewed_def
        scenario_2_def round53_def round_half_even_def fun_eq_iff)
  show "prior scenario_2_skewed ''Good'' = Some (Real (1 / 2))"
    by (simp add: scenario_2_skewed_def)
  show "Real (1073741825 / 2147483648) \<noteq> Real (1 / 2)"
    by simp
qed



section \<open>What the validator accepts\<close>

lemma validate_rows_accepts:
  assumes "validate_rows rows = Inr (True, msg)" and "(state, v) \<in> set rows"
  shows "\<exists>signals prob_sum. v = JDict signals \<and> signals \<noteq> []
           \<and> sum_values signals 0 = Inr prob_sum \<and> \<bar>prob_sum - 1\<bar> < 1 / 1000000"
  using assms
  by (induction rows rule: validate_rows.induct)
     (auto split: if_splits sum.splits)

lemma validate_llm_scheme_accepts:
  assumes "validate_llm_scheme llm_scheme sts = Inr (True, msg)"
  shows "\<exists>scheme. llm_scheme = JDict scheme \<and> set (map fst scheme) = set sts
           \<and> (\<forall>(state, v)\<in>set scheme. \<exists>signals prob_sum. v = JDict signals \<and> signals \<noteq> []
                  \<and> sum_values signals 0 = Inr prob_sum \<and> \<bar>prob_sum - 1\<bar> < 1 / 1000000)"
proof (cases llm_scheme)
  case (JDict scheme)
  with assms have k: "set (map fst scheme) = set sts" and r: "validate_rows scheme = Inr (True, msg)"
    by (auto split: if_splits)
  from validate_rows_accepts [OF r] have "\<forall>(state, v)\<in>set scheme.
      \<exists>signals prob_sum. v = JDict signals \<and> signals \<noteq> []
        \<and> sum_values signals 0 = Inr prob_sum \<and> \<bar>prob_sum - 1\<bar> < 1 / 1000000"
    by blast
  with JDict k show ?thesis by blast
qed (use assms in simp_all)

text \<open>
  C7. The claim is that the validator accepts a scheme only if its keys are the states,
  every row sums to 1 within 1e-6 and every probability is at least 0. The first two
  checks are established above. The third is not made: the scheme whose row for
  \<open>Good\<close> is 1.5 and -0.5 is accepted as valid, and step 3 hands it on.
\<close>

theorem negative_probability_accepted:
  "validate_llm_scheme negative_scheme [''Good'', ''Bad''] = Inr (True, ValidScheme)
   \<and> get_llm_strategy negative_scheme [''Good'', ''Bad''] = (Some negative_scheme, True)"
proof -
  have v: "validate_llm_scheme negative_scheme [''Good'', ''Bad''] = Inr (True, ValidScheme)"
    by (simp add: negative_scheme_def)
  then show ?thesis
    by (simp add: get_llm_strategy_def)
qed

end
